theory Spec2Isabelle
  imports Main "HOL-Library.Word"
begin

unbundle bit_operations_syntax

section \<open>Whisper2 Android client: crypto layer and WebSocket session transport\<close>

text \<open>
  The repository is a generator (\<^verbatim>\<open>src/android/generate_all.py\<close>) whose payload is the
  Kotlin source of the client. The definitions below embed that Kotlin code, file by file.
  Kotlin \<^verbatim>\<open>Int\<close> is \<open>32 word\<close>, \<^verbatim>\<open>Long\<close> is \<open>64 word\<close>, \<^verbatim>\<open>Byte\<close> is \<open>8 word\<close>, a
  \<^verbatim>\<open>ByteArray\<close> is a list of bytes, a \<^verbatim>\<open>String\<close> is a \<open>string\<close>. Exceptions are values of
  the type \<open>error\<close>; a function that can throw returns \<open>error + 'a\<close>.
\<close>

type_synonym byte = "8 word"
type_synonym bytes = "byte list"

datatype error =
    InvalidMnemonicException
  | EncryptionException
  | DecryptionException
  | NegativeArraySizeException
  | IndexOutOfBoundsException
  | IllegalArgumentException

subsection \<open>Constants.kt\<close>

definition BIP39_SEED_LENGTH :: nat where "BIP39_SEED_LENGTH = 64"
definition BIP39_ITERATIONS :: nat where "BIP39_ITERATIONS = 2048"
definition BIP39_SALT :: string where "BIP39_SALT = ''mnemonic''"
definition HKDF_SALT :: string where "HKDF_SALT = ''whisper''"
definition ENCRYPTION_DOMAIN :: string where "ENCRYPTION_DOMAIN = ''whisper/enc''"
definition SIGNING_DOMAIN :: string where "SIGNING_DOMAIN = ''whisper/sign''"
definition CONTACTS_DOMAIN :: string where "CONTACTS_DOMAIN = ''whisper/contacts''"

definition RECONNECT_BASE_DELAY_MS :: "64 word" where "RECONNECT_BASE_DELAY_MS = 1000"
definition RECONNECT_MAX_DELAY_MS :: "64 word" where "RECONNECT_MAX_DELAY_MS = 30000"
definition RECONNECT_MAX_ATTEMPTS :: "32 word" where "RECONNECT_MAX_ATTEMPTS = 5"

subsection \<open>WsReconnectPolicy.kt\<close>

record WsReconnectPolicy =
  attemptCount :: "32 word"
  isAuthExpired :: bool
  isNetworkAvailable :: bool

text \<open>The field initialisers of the class.\<close>

definition newPolicy :: WsReconnectPolicy where
  "newPolicy = \<lparr>attemptCount = 0, isAuthExpired = False, isNetworkAvailable = True\<rparr>"

definition shouldRetry :: "WsReconnectPolicy \<Rightarrow> bool" where
  "shouldRetry p =
     (if isAuthExpired p then False
      else if \<not> isNetworkAvailable p then False
      else attemptCount p <s RECONNECT_MAX_ATTEMPTS)"

text \<open>
  \<^verbatim>\<open>1 shl attemptCount\<close> on \<^verbatim>\<open>Int\<close>: the JVM uses only the low five bits of the shift
  distance and the result wraps at 32 bits. The product with the \<^verbatim>\<open>Long\<close> base delay
  sign-extends it to 64 bits; \<^verbatim>\<open>minOf\<close> compares as signed.
\<close>

definition shl :: "32 word \<Rightarrow> 32 word \<Rightarrow> 32 word" where
  "shl x s = push_bit (unat (s AND 31)) x"

definition minOf :: "64 word \<Rightarrow> 64 word \<Rightarrow> 64 word" where
  "minOf a b = (if a \<le>s b then a else b)"

definition getDelayMs :: "WsReconnectPolicy \<Rightarrow> 64 word \<times> WsReconnectPolicy" where
  "getDelayMs p =
     (let delay = RECONNECT_BASE_DELAY_MS * scast (shl 1 (attemptCount p));
          p' = p\<lparr>attemptCount := attemptCount p + 1\<rparr>
      in (minOf delay RECONNECT_MAX_DELAY_MS, p'))"

definition reset :: "WsReconnectPolicy \<Rightarrow> WsReconnectPolicy" where
  "reset p = p\<lparr>attemptCount := 0, isAuthExpired := False\<rparr>"

definition markAuthExpired :: "WsReconnectPolicy \<Rightarrow> WsReconnectPolicy" where
  "markAuthExpired p = p\<lparr>isAuthExpired := True\<rparr>"

definition setNetworkAvailable :: "bool \<Rightarrow> WsReconnectPolicy \<Rightarrow> WsReconnectPolicy" where
  "setNetworkAvailable available p =
     (let p' = p\<lparr>isNetworkAvailable := available\<rparr>
      in if available \<and> \<not> isAuthExpired p' then p'\<lparr>attemptCount := 0\<rparr> else p')"

definition isAuthenticationRequired :: "WsReconnectPolicy \<Rightarrow> bool" where
  "isAuthenticationRequired p = isAuthExpired p"

subsection \<open>WsConnectionState.kt and WsClient.kt\<close>

datatype WsConnectionState = DISCONNECTED | CONNECTING | CONNECTED | RECONNECTING | AUTH_EXPIRED

text \<open>
  The state of a \<^verbatim>\<open>WsClientImpl\<close>: whether \<^verbatim>\<open>webSocket\<close> is set, the connection state, the
  policy, and the reconnect coroutines that \<^verbatim>\<open>attemptReconnect\<close> has launched and whose
  delay has not elapsed yet, each with the delay it was given. Launching the coroutine and
  its call of \<^verbatim>\<open>getDelayMs\<close> are one step. The heartbeat coroutine only sends frames and
  is left out.
\<close>

record WsClientImpl =
  webSocket :: bool
  connectionState :: WsConnectionState
  reconnectPolicy :: WsReconnectPolicy
  reconnectJobs :: "64 word list"

definition newClient :: WsClientImpl where
  "newClient = \<lparr>webSocket = False, connectionState = DISCONNECTED,
                 reconnectPolicy = newPolicy, reconnectJobs = []\<rparr>"

definition connect :: "WsClientImpl \<Rightarrow> WsClientImpl" where
  "connect c =
     (if connectionState c = CONNECTED then c
      else c\<lparr>connectionState := CONNECTING, webSocket := True\<rparr>)"

definition onOpen :: "WsClientImpl \<Rightarrow> WsClientImpl" where
  "onOpen c = c\<lparr>connectionState := CONNECTED, reconnectPolicy := reset (reconnectPolicy c)\<rparr>"

definition attemptReconnect :: "WsClientImpl \<Rightarrow> WsClientImpl" where
  "attemptReconnect c =
     (if shouldRetry (reconnectPolicy c)
      then (let c1 = c\<lparr>connectionState := RECONNECTING\<rparr>;
                (d, p) = getDelayMs (reconnectPolicy c1)
            in c1\<lparr>reconnectPolicy := p, reconnectJobs := reconnectJobs c1 @ [d]\<rparr>)
      else c)"

definition onFailure :: "WsClientImpl \<Rightarrow> WsClientImpl" where
  "onFailure c = attemptReconnect (c\<lparr>connectionState := DISCONNECTED\<rparr>)"

definition onClosed :: "WsClientImpl \<Rightarrow> WsClientImpl" where
  "onClosed c = c\<lparr>connectionState := DISCONNECTED\<rparr>"

text \<open>The delay of the oldest reconnect coroutine elapses: it calls \<^verbatim>\<open>connect()\<close>.\<close>

definition delayElapsed :: "WsClientImpl \<Rightarrow> WsClientImpl" where
  "delayElapsed c =
     (case reconnectJobs c of [] \<Rightarrow> c | d # ds \<Rightarrow> connect (c\<lparr>reconnectJobs := ds\<rparr>))"

definition disconnect :: "WsClientImpl \<Rightarrow> WsClientImpl" where
  "disconnect c = c\<lparr>webSocket := False, connectionState := DISCONNECTED\<rparr>"

definition clientMarkAuthExpired :: "WsClientImpl \<Rightarrow> WsClientImpl" where
  "clientMarkAuthExpired c =
     c\<lparr>reconnectPolicy := markAuthExpired (reconnectPolicy c), connectionState := AUTH_EXPIRED\<rparr>"

text \<open>
  \<open>failures k c\<close>: the transport fails \<open>k\<close> times in a row from \<open>c\<close>; after each
  failure the reconnect delay, if one was issued, elapses. The result is the list of the
  delays issued and the final state.
\<close>

fun failures :: "nat \<Rightarrow> WsClientImpl \<Rightarrow> 64 word list \<times> WsClientImpl" where
  "failures 0 c = ([], c)"
| "failures (Suc k) c =
     (let c1 = onFailure c;
          (ds, c2) = failures k (delayElapsed c1)
      in (reconnectJobs c1 @ ds, c2))"

text \<open>The events of the transport, and a run of a list of events.\<close>

datatype event = Connect | OnOpen | OnFailure | OnClosed | DelayElapsed | Disconnect | MarkAuthExpired

fun step :: "event \<Rightarrow> WsClientImpl \<Rightarrow> WsClientImpl" where
  "step Connect c = connect c"
| "step OnOpen c = onOpen c"
| "step OnFailure c = onFailure c"
| "step OnClosed c = onClosed c"
| "step DelayElapsed c = delayElapsed c"
| "step Disconnect c = disconnect c"
| "step MarkAuthExpired c = clientMarkAuthExpired c"

definition run :: "event list \<Rightarrow> WsClientImpl \<Rightarrow> WsClientImpl" where
  "run es c = foldl (\<lambda>s e. step e s) c es"

subsection \<open>Library primitives\<close>

text \<open>
  The JDK, the Android framework and libsodium (through LazySodium) are not part of the
  repository. Their operations are parameters of the model. A native libsodium call
  writes its output into a buffer that the Kotlin code has allocated; \<open>fill\<close> is that
  write: the buffer keeps its size. \<open>hmacSHA256\<close> is the MAC of some data under a
  non-empty key; the check of the JDK that refuses an empty key is written out where the
  Kotlin code builds the key.
\<close>

record Platform =
  normalizeNFKD :: "string \<Rightarrow> string"
  encodeBase64 :: "bytes \<Rightarrow> string"
  sha256 :: "bytes \<Rightarrow> bytes"
  hmacSHA256 :: "bytes \<Rightarrow> bytes \<Rightarrow> bytes"
  pbkdf2HmacSHA512 :: "string \<Rightarrow> bytes \<Rightarrow> nat \<Rightarrow> nat \<Rightarrow> bytes"

record LazySodium =
  cryptoScalarmultBase :: "bytes \<Rightarrow> bytes"
  cryptoSignSeedKeypair :: "bytes \<Rightarrow> bytes \<times> bytes"
  cryptoBoxEasy :: "bytes \<Rightarrow> bytes \<Rightarrow> bytes \<Rightarrow> bytes \<Rightarrow> bool \<times> bytes"
  cryptoBoxOpenEasy :: "bytes \<Rightarrow> bytes \<Rightarrow> bytes \<Rightarrow> bytes \<Rightarrow> bool \<times> bytes"
  cryptoSecretBoxEasy :: "bytes \<Rightarrow> bytes \<Rightarrow> bytes \<Rightarrow> bool \<times> bytes"
  cryptoSecretBoxOpenEasy :: "bytes \<Rightarrow> bytes \<Rightarrow> bytes \<Rightarrow> bool \<times> bytes"
  cryptoSignDetached :: "bytes \<Rightarrow> bytes \<Rightarrow> bytes"
  cryptoSignVerifyDetached :: "bytes \<Rightarrow> bytes \<Rightarrow> bytes \<Rightarrow> bool"

definition Box_PUBLICKEYBYTES :: nat where "Box_PUBLICKEYBYTES = 32"
definition Box_SECRETKEYBYTES :: nat where "Box_SECRETKEYBYTES = 32"
definition Box_MACBYTES :: nat where "Box_MACBYTES = 16"
definition SecretBox_MACBYTES :: nat where "SecretBox_MACBYTES = 16"
definition Sign_PUBLICKEYBYTES :: nat where "Sign_PUBLICKEYBYTES = 32"
definition Sign_SECRETKEYBYTES :: nat where "Sign_SECRETKEYBYTES = 64"
definition Sign_BYTES :: nat where "Sign_BYTES = 64"

definition ByteArray :: "int \<Rightarrow> error + bytes" where
  "ByteArray size' =
     (if size' < 0 then Inl NegativeArraySizeException else Inr (replicate (nat size') 0))"

definition fill :: "bytes \<Rightarrow> bytes \<Rightarrow> bytes" where
  "fill buf out = take (length buf) out @ drop (length out) buf"

definition arraycopy :: "bytes \<Rightarrow> nat \<Rightarrow> bytes \<Rightarrow> nat \<Rightarrow> nat \<Rightarrow> error + bytes" where
  "arraycopy src srcPos dest destPos len =
     (if length src < srcPos + len \<or> length dest < destPos + len
      then Inl IndexOutOfBoundsException
      else Inr (take destPos dest @ take len (drop srcPos src) @ drop (destPos + len) dest))"

definition copyOf :: "bytes \<Rightarrow> int \<Rightarrow> error + bytes" where
  "copyOf a newSize =
     (if newSize < 0 then Inl NegativeArraySizeException
      else Inr (take (nat newSize) a @ replicate (nat newSize - length a) 0))"

subsection \<open>Extensions.kt\<close>

text \<open>
  Strings are modelled on code units up to U+00FF. \<^verbatim>\<open>trim()\<close> removes the characters for
  which Kotlin's \<^verbatim>\<open>isWhitespace\<close> holds, the regular expression \<^verbatim>\<open>\s+\<close> matches runs of
  \<^verbatim>\<open>[ \t\n\x0B\f\r]\<close>, \<^verbatim>\<open>lowercase()\<close> maps the capital letters of that range.
\<close>

definition isWhitespace :: "char \<Rightarrow> bool" where
  "isWhitespace c = ((of_char c :: nat) \<in> {9, 10, 11, 12, 13, 28, 29, 30, 31, 32, 160})"

definition trim :: "string \<Rightarrow> string" where
  "trim s = rev (dropWhile isWhitespace (rev (dropWhile isWhitespace s)))"

definition isRegexSpace :: "char \<Rightarrow> bool" where
  "isRegexSpace c = ((of_char c :: nat) \<in> {32, 9, 10, 11, 12, 13})"

text \<open>\<^verbatim>\<open>replace(Regex("\\s+"), " ")\<close>; the flag says that the scan is inside a run.\<close>

fun replaceSpaceRuns :: "bool \<Rightarrow> string \<Rightarrow> string" where
  "replaceSpaceRuns inRun [] = []"
| "replaceSpaceRuns inRun (c # cs) =
     (if isRegexSpace c
      then (if inRun then replaceSpaceRuns True cs else CHR '' '' # replaceSpaceRuns True cs)
      else c # replaceSpaceRuns False cs)"

definition lowercaseChar :: "char \<Rightarrow> char" where
  "lowercaseChar c =
     (let n = of_char c :: nat
      in if (65 \<le> n \<and> n \<le> 90) \<or> (192 \<le> n \<and> n \<le> 222 \<and> n \<noteq> 215)
         then char_of (n + 32) else c)"

definition lowercase :: "string \<Rightarrow> string" where
  "lowercase s = map lowercaseChar s"

definition normalizeMnemonic :: "Platform \<Rightarrow> string \<Rightarrow> string" where
  "normalizeMnemonic P s = lowercase (replaceSpaceRuns False (trim (normalizeNFKD P s)))"

text \<open>\<^verbatim>\<open>toByteArray(Charsets.UTF_8)\<close> on code units up to U+00FF.\<close>

definition toByteArrayUTF8 :: "string \<Rightarrow> bytes" where
  "toByteArrayUTF8 s =
     concat (map (\<lambda>c. let n = of_char c :: nat
                      in if n < 128 then [of_nat n]
                         else [of_nat (192 + n div 64), of_nat (128 + n mod 64)]) s)"

text \<open>\<^verbatim>\<open>split(" ")\<close> keeps empty pieces; \<^verbatim>\<open>joinToString(" ")\<close> is its inverse on words.\<close>

fun splitSpace :: "string \<Rightarrow> string list" where
  "splitSpace [] = [[]]"
| "splitSpace (c # cs) =
     (if c = CHR '' '' then [] # splitSpace cs
      else (case splitSpace cs of [] \<Rightarrow> [[c]] | w # ws \<Rightarrow> (c # w) # ws))"

fun joinToString :: "string list \<Rightarrow> string" where
  "joinToString [] = []"
| "joinToString [w] = w"
| "joinToString (w # ws) = w @ CHR '' '' # joinToString ws"

text \<open>A string template renders a \<^verbatim>\<open>Long\<close> in decimal, with a minus sign when negative.\<close>

fun digits :: "nat \<Rightarrow> string" where
  "digits n = (if n < 10 then [char_of (48 + n)] else digits (n div 10) @ [char_of (48 + n mod 10)])"

definition toStringLong :: "64 word \<Rightarrow> string" where
  "toStringLong x = (if sint x < 0 then CHR ''-'' # digits (nat (- sint x)) else digits (nat (sint x)))"

subsection \<open>BIP39WordList.kt\<close>

definition BIP39WordList_words :: "string list" where
  "BIP39WordList_words = [
    ''abandon'', ''ability'', ''able'', ''about'', ''above'', ''absent'', ''absorb'',
    ''abstract'', ''absurd'', ''abuse'', ''access'', ''accident'', ''account'', ''accuse'',
    ''achieve'', ''acid'', ''acoustic'', ''acquire'', ''across'', ''act'', ''action'',
    ''actor'', ''actress'', ''actual'', ''adapt'', ''add'', ''addict'', ''address'',
    ''adjust'', ''admit'', ''adult'', ''advance'', ''advice'', ''aerobic'', ''affair'',
    ''afford'', ''afraid'', ''again'', ''age'', ''agent'', ''agree'', ''ahead'', ''aim'',
    ''air'', ''airport'', ''aisle'', ''alarm'', ''album'', ''alcohol'', ''alert'', ''alien'',
    ''all'', ''alley'', ''allow'', ''almost'', ''alone'', ''alpha'', ''already'', ''also'',
    ''alter'', ''always'', ''amateur'', ''amazing'', ''among'', ''amount'', ''amused'',
    ''analyst'', ''anchor'', ''ancient'', ''anger'', ''angle'', ''angry'', ''animal'',
    ''ankle'', ''announce'', ''annual'', ''another'', ''answer'', ''antenna'', ''antique'',
    ''anxiety'', ''any'', ''apart'', ''apology'', ''appear'', ''apple'', ''approve'',
    ''april'', ''arch'', ''arctic'', ''area'', ''arena'', ''argue'', ''arm'', ''armed'',
    ''armor'', ''army'', ''around'', ''arrange'', ''arrest'', ''arrive'', ''arrow'', ''art'',
    ''artefact'', ''artist'', ''artwork'', ''ask'', ''aspect'', ''assault'', ''asset'',
    ''assist'', ''assume'', ''asthma'', ''athlete'', ''atom'', ''attack'', ''attend'',
    ''attitude'', ''attract'', ''auction'', ''audit'', ''august'', ''aunt'', ''author'',
    ''auto'', ''autumn'', ''average'', ''avocado'', ''avoid'', ''awake'', ''aware'', ''away'',
    ''awesome'', ''awful'', ''awkward'', ''axis'', ''baby'', ''bachelor'', ''bacon'',
    ''badge'', ''bag'', ''balance'', ''balcony'', ''ball'', ''bamboo'', ''banana'', ''banner'',
    ''bar'', ''barely'', ''bargain'', ''barrel'', ''base'', ''basic'', ''basket'', ''battle'',
    ''beach'', ''bean'', ''beauty'', ''because'', ''become'', ''beef'', ''before'', ''begin'',
    ''behave'', ''behind'', ''believe'', ''below'', ''belt'', ''bench'', ''benefit'', ''best'',
    ''betray'', ''better'', ''between'', ''beyond'', ''bicycle'', ''bid'', ''bike'', ''bind'',
    ''biology'', ''bird'', ''birth'', ''bitter'', ''black'', ''blade'', ''blame'', ''blanket'',
    ''blast'', ''bleak'', ''bless'', ''blind'', ''blood'', ''blossom'', ''blouse'', ''blue'',
    ''blur'', ''blush'', ''board'', ''boat'', ''body'', ''zero'', ''zone'', ''zoo''
  ]"

definition isValidWord :: "string \<Rightarrow> bool" where
  "isValidWord word = (lowercase word \<in> set BIP39WordList_words)"

definition getWord :: "nat \<Rightarrow> error + string" where
  "getWord index =
     (if index < length BIP39WordList_words then Inr (BIP39WordList_words ! index)
      else Inl IndexOutOfBoundsException)"

subsection \<open>BIP39.kt\<close>

text \<open>
  \<open>toBinaryString8\<close> is the zero-padded eight-character rendering of \<^verbatim>\<open>b.toInt() and 0xFF\<close>;
  \<open>checksumBit\<close> is the test \<^verbatim>\<open>(hash[0].toInt() and (1 shl (7 - i))) != 0\<close> on \<^verbatim>\<open>Int\<close>;
  \<open>toInt2\<close> is \<^verbatim>\<open>toInt(2)\<close> on a string of binary digits.
\<close>

definition toBinaryString8 :: "byte \<Rightarrow> string" where
  "toBinaryString8 b = map (\<lambda>i. if bit b i then CHR ''1'' else CHR ''0'') (rev [0..<8])"

definition checksumBit :: "byte \<Rightarrow> nat \<Rightarrow> char" where
  "checksumBit h i =
     (if (scast h :: 32 word) AND shl 1 (7 - of_nat i) \<noteq> 0 then CHR ''1'' else CHR ''0'')"

definition toInt2 :: "string \<Rightarrow> nat" where
  "toInt2 s = foldl (\<lambda>a c. 2 * a + (if c = CHR ''1'' then 1 else 0)) 0 s"

definition substring :: "string \<Rightarrow> nat \<Rightarrow> nat \<Rightarrow> string" where
  "substring s a b = take (b - a) (drop a s)"

fun getWords :: "nat list \<Rightarrow> error + string list" where
  "getWords [] = Inr []"
| "getWords (i # is) =
     (case getWord i of
        Inl e \<Rightarrow> Inl e
      | Inr w \<Rightarrow> (case getWords is of Inl e \<Rightarrow> Inl e | Inr ws \<Rightarrow> Inr (w # ws)))"

definition entropyToMnemonic :: "Platform \<Rightarrow> bytes \<Rightarrow> error + string" where
  "entropyToMnemonic P entropy =
     (let hash = sha256 P entropy;
          checksumBits = length entropy div 4
      in if 0 < checksumBits \<and> hash = [] then Inl IndexOutOfBoundsException
         else
           (let bits = concat (map toBinaryString8 entropy)
                         @ map (checksumBit (hd hash)) [0..<checksumBits];
                indices = map (\<lambda>i. toInt2 (substring bits (i * 11) ((i + 1) * 11)))
                            [0..<length bits div 11]
            in case getWords indices of
                 Inl e \<Rightarrow> Inl e
               | Inr ws \<Rightarrow> Inr (joinToString ws)))"

text \<open>
  \<^verbatim>\<open>SecureRandom.nextBytes\<close> is the function that says which bytes the generator delivers
  for a buffer of a given size.
\<close>

definition generateMnemonic :: "Platform \<Rightarrow> (nat \<Rightarrow> bytes) \<Rightarrow> error + string" where
  "generateMnemonic P nextBytes = entropyToMnemonic P (fill (replicate 16 0) (nextBytes 16))"

definition generateMnemonic24 :: "Platform \<Rightarrow> (nat \<Rightarrow> bytes) \<Rightarrow> error + string" where
  "generateMnemonic24 P nextBytes = entropyToMnemonic P (fill (replicate 32 0) (nextBytes 32))"

definition validateMnemonic :: "Platform \<Rightarrow> string \<Rightarrow> bool" where
  "validateMnemonic P mnemonic =
     (let ws = splitSpace (normalizeMnemonic P mnemonic)
      in if length ws \<noteq> 12 \<and> length ws \<noteq> 24 then False
         else list_all isValidWord ws)"

definition seedFromMnemonic :: "Platform \<Rightarrow> string \<Rightarrow> error + bytes" where
  "seedFromMnemonic P mnemonic =
     (if \<not> validateMnemonic P mnemonic then Inl InvalidMnemonicException
      else
        (let normalized = normalizeMnemonic P mnemonic;
             salt = toByteArrayUTF8 BIP39_SALT
         in Inr (pbkdf2HmacSHA512 P normalized salt BIP39_ITERATIONS (BIP39_SEED_LENGTH * 8))))"

subsection \<open>HKDF.kt\<close>

definition HASH_LEN :: nat where "HASH_LEN = 32"

text \<open>
  \<^verbatim>\<open>SecretKeySpec(key, "HmacSHA256")\<close> throws \<^verbatim>\<open>IllegalArgumentException\<close> on an empty key;
  in \<^verbatim>\<open>extract\<close> and in \<^verbatim>\<open>expand\<close> it is the first statement that can throw.
\<close>

definition SecretKeySpec :: "bytes \<Rightarrow> error + bytes" where
  "SecretKeySpec key = (if key = [] then Inl IllegalArgumentException else Inr key)"

definition HKDF_extract :: "Platform \<Rightarrow> bytes \<Rightarrow> bytes \<Rightarrow> error + bytes" where
  "HKDF_extract P salt ikm =
     (case SecretKeySpec salt of
        Inl e \<Rightarrow> Inl e
      | Inr key \<Rightarrow> Inr (hmacSHA256 P key ikm))"

text \<open>
  The loop \<^verbatim>\<open>for (i in 1..n)\<close>: the first argument counts the iterations that remain,
  \<open>i\<close> is the loop variable, \<open>t\<close> and \<open>okm\<close> are the two arrays the loop updates.
\<close>

fun expandLoop :: "Platform \<Rightarrow> bytes \<Rightarrow> bytes \<Rightarrow> nat \<Rightarrow> nat \<Rightarrow> bytes \<Rightarrow> bytes \<Rightarrow> error + bytes" where
  "expandLoop P prk info 0 i t okm = Inr okm"
| "expandLoop P prk info (Suc k) i t okm =
     (let t' = hmacSHA256 P prk (t @ info @ [of_nat i])
      in case arraycopy t' 0 okm ((i - 1) * HASH_LEN) HASH_LEN of
           Inl e \<Rightarrow> Inl e
         | Inr okm' \<Rightarrow> expandLoop P prk info k (Suc i) t' okm')"

text \<open>
  \<^verbatim>\<open>ceil(length.toDouble() / HASH_LEN).toInt()\<close> is exact on \<^verbatim>\<open>Int\<close> arguments (a division
  by a power of two); \<^verbatim>\<open>n * HASH_LEN\<close> wraps at 32 bits.
\<close>

definition HKDF_expand :: "Platform \<Rightarrow> bytes \<Rightarrow> bytes \<Rightarrow> int \<Rightarrow> error + bytes" where
  "HKDF_expand P prk info length' =
     (case SecretKeySpec prk of
        Inl e \<Rightarrow> Inl e
      | Inr key \<Rightarrow>
     (let n = - ((- length') div int HASH_LEN)
      in case ByteArray (sint (word_of_int (n * int HASH_LEN) :: 32 word)) of
           Inl e \<Rightarrow> Inl e
         | Inr okm0 \<Rightarrow>
             (case expandLoop P key info (nat n) 1 [] okm0 of
                Inl e \<Rightarrow> Inl e
              | Inr okm \<Rightarrow> copyOf okm length')))"

definition HKDF_deriveKey :: "Platform \<Rightarrow> bytes \<Rightarrow> bytes \<Rightarrow> bytes \<Rightarrow> int \<Rightarrow> error + bytes" where
  "HKDF_deriveKey P ikm salt info length' =
     (case HKDF_extract P salt ikm of
        Inl e \<Rightarrow> Inl e
      | Inr prk \<Rightarrow> HKDF_expand P prk info length')"

subsection \<open>KeyDerivation.kt\<close>

record DerivedKeys =
  encPublicKey :: bytes
  encPrivateKey :: bytes
  signPublicKey :: bytes
  signPrivateKey :: bytes
  contactsKey :: bytes

definition generateEncryptionKeyPair :: "LazySodium \<Rightarrow> bytes \<Rightarrow> error + bytes \<times> bytes" where
  "generateEncryptionKeyPair L seed =
     (let publicKey = replicate Box_PUBLICKEYBYTES 0;
          privateKey = replicate Box_SECRETKEYBYTES 0
      in case arraycopy seed 0 privateKey 0 32 of
           Inl e \<Rightarrow> Inl e
         | Inr privateKey' \<Rightarrow>
             Inr (fill publicKey (cryptoScalarmultBase L privateKey'), privateKey'))"

definition generateSigningKeyPair :: "LazySodium \<Rightarrow> bytes \<Rightarrow> error + bytes \<times> bytes" where
  "generateSigningKeyPair L seed =
     (let publicKey = replicate Sign_PUBLICKEYBYTES 0;
          privateKey = replicate Sign_SECRETKEYBYTES 0;
          (pk, sk) = cryptoSignSeedKeypair L seed
      in Inr (fill publicKey pk, fill privateKey sk))"

definition deriveAllKeys :: "Platform \<Rightarrow> LazySodium \<Rightarrow> string \<Rightarrow> error + DerivedKeys" where
  "deriveAllKeys P L mnemonic =
     (case seedFromMnemonic P mnemonic of
        Inl e \<Rightarrow> Inl e
      | Inr seed \<Rightarrow>
     (let salt = toByteArrayUTF8 HKDF_SALT
      in case HKDF_deriveKey P seed salt (toByteArrayUTF8 ENCRYPTION_DOMAIN) 32 of
        Inl e \<Rightarrow> Inl e
      | Inr encSeed \<Rightarrow>
     (case HKDF_deriveKey P seed salt (toByteArrayUTF8 SIGNING_DOMAIN) 32 of
        Inl e \<Rightarrow> Inl e
      | Inr signSeed \<Rightarrow>
     (case HKDF_deriveKey P seed salt (toByteArrayUTF8 CONTACTS_DOMAIN) 32 of
        Inl e \<Rightarrow> Inl e
      | Inr contactsKey' \<Rightarrow>
     (case generateEncryptionKeyPair L encSeed of
        Inl e \<Rightarrow> Inl e
      | Inr encKeyPair \<Rightarrow>
     (case generateSigningKeyPair L signSeed of
        Inl e \<Rightarrow> Inl e
      | Inr signKeyPair \<Rightarrow>
          Inr \<lparr>encPublicKey = fst encKeyPair, encPrivateKey = snd encKeyPair,
               signPublicKey = fst signKeyPair, signPrivateKey = snd signKeyPair,
               contactsKey = contactsKey'\<rparr>))))))"

subsection \<open>NaClBox.kt and NaClSecretBox.kt\<close>

text \<open>
  Array sizes are \<^verbatim>\<open>Int\<close>s. The sum \<^verbatim>\<open>message.size + MACBYTES\<close> leaves the range of
  \<^verbatim>\<open>Int\<close> only for a message within 16 bytes of the largest array, more than an Android
  heap holds; it is taken without wrap-around. The difference
  \<^verbatim>\<open>ciphertext.size - MACBYTES\<close> is negative for a short ciphertext, and \<^verbatim>\<open>ByteArray\<close>
  throws.
\<close>

definition NaClBox_seal :: "LazySodium \<Rightarrow> bytes \<Rightarrow> bytes \<Rightarrow> bytes \<Rightarrow> bytes \<Rightarrow> error + bytes" where
  "NaClBox_seal L message nonce recipientPublicKey senderPrivateKey =
     (case ByteArray (int (length message) + int Box_MACBYTES) of
        Inl e \<Rightarrow> Inl e
      | Inr ciphertext \<Rightarrow>
          (let (success, out) = cryptoBoxEasy L message nonce recipientPublicKey senderPrivateKey
           in if \<not> success then Inl EncryptionException else Inr (fill ciphertext out)))"

definition NaClBox_open :: "LazySodium \<Rightarrow> bytes \<Rightarrow> bytes \<Rightarrow> bytes \<Rightarrow> bytes \<Rightarrow> error + bytes" where
  "NaClBox_open L ciphertext nonce senderPublicKey recipientPrivateKey =
     (case ByteArray (int (length ciphertext) - int Box_MACBYTES) of
        Inl e \<Rightarrow> Inl e
      | Inr message \<Rightarrow>
          (let (success, out) = cryptoBoxOpenEasy L ciphertext nonce senderPublicKey recipientPrivateKey
           in if \<not> success then Inl DecryptionException else Inr (fill message out)))"

definition NaClSecretBox_seal :: "LazySodium \<Rightarrow> bytes \<Rightarrow> bytes \<Rightarrow> bytes \<Rightarrow> error + bytes" where
  "NaClSecretBox_seal L message nonce key =
     (case ByteArray (int (length message) + int SecretBox_MACBYTES) of
        Inl e \<Rightarrow> Inl e
      | Inr ciphertext \<Rightarrow>
          (let (success, out) = cryptoSecretBoxEasy L message nonce key
           in if \<not> success then Inl EncryptionException else Inr (fill ciphertext out)))"

definition NaClSecretBox_open :: "LazySodium \<Rightarrow> bytes \<Rightarrow> bytes \<Rightarrow> bytes \<Rightarrow> error + bytes" where
  "NaClSecretBox_open L ciphertext nonce key =
     (case ByteArray (int (length ciphertext) - int SecretBox_MACBYTES) of
        Inl e \<Rightarrow> Inl e
      | Inr message \<Rightarrow>
          (let (success, out) = cryptoSecretBoxOpenEasy L ciphertext nonce key
           in if \<not> success then Inl DecryptionException else Inr (fill message out)))"

subsection \<open>Signatures.kt and CanonicalSigning.kt\<close>

definition Signatures_sign :: "LazySodium \<Rightarrow> bytes \<Rightarrow> bytes \<Rightarrow> bytes" where
  "Signatures_sign L message privateKey =
     fill (replicate Sign_BYTES 0) (cryptoSignDetached L message privateKey)"

definition Signatures_verify :: "LazySodium \<Rightarrow> bytes \<Rightarrow> bytes \<Rightarrow> bytes \<Rightarrow> bool" where
  "Signatures_verify L message signature publicKey =
     cryptoSignVerifyDetached L signature message publicKey"

definition signChallenge :: "Platform \<Rightarrow> LazySodium \<Rightarrow> bytes \<Rightarrow> bytes \<Rightarrow> bytes" where
  "signChallenge P L challenge privateKey = Signatures_sign L (sha256 P challenge) privateKey"

definition verifyChallenge :: "Platform \<Rightarrow> LazySodium \<Rightarrow> bytes \<Rightarrow> bytes \<Rightarrow> bytes \<Rightarrow> bool" where
  "verifyChallenge P L challenge signature publicKey =
     Signatures_verify L (sha256 P challenge) signature publicKey"

text \<open>
  \<open>canonical\<close> is the \<^verbatim>\<open>buildString\<close> block that \<^verbatim>\<open>signMessage\<close> and \<^verbatim>\<open>verifyMessage\<close>
  both contain.
\<close>

definition canonical ::
  "Platform \<Rightarrow> string \<Rightarrow> string \<Rightarrow> string \<Rightarrow> string \<Rightarrow> 64 word \<Rightarrow> bytes \<Rightarrow> bytes \<Rightarrow> string" where
  "canonical P messageType messageId from' toOrGroupId timestamp nonce ciphertext =
     ''v1'' @ [CHR 0x0A]
     @ messageType @ [CHR 0x0A]
     @ messageId @ [CHR 0x0A]
     @ from' @ [CHR 0x0A]
     @ toOrGroupId @ [CHR 0x0A]
     @ toStringLong timestamp @ [CHR 0x0A]
     @ encodeBase64 P nonce @ [CHR 0x0A]
     @ encodeBase64 P ciphertext @ [CHR 0x0A]"

definition signMessage ::
  "Platform \<Rightarrow> LazySodium \<Rightarrow> string \<Rightarrow> string \<Rightarrow> string \<Rightarrow> string \<Rightarrow> 64 word \<Rightarrow> bytes \<Rightarrow> bytes
   \<Rightarrow> bytes \<Rightarrow> bytes" where
  "signMessage P L messageType messageId from' toOrGroupId timestamp nonce ciphertext privateKey =
     (let hash = sha256 P (toByteArrayUTF8
                   (canonical P messageType messageId from' toOrGroupId timestamp nonce ciphertext))
      in Signatures_sign L hash privateKey)"

definition verifyMessage ::
  "Platform \<Rightarrow> LazySodium \<Rightarrow> string \<Rightarrow> string \<Rightarrow> string \<Rightarrow> string \<Rightarrow> 64 word \<Rightarrow> bytes \<Rightarrow> bytes
   \<Rightarrow> bytes \<Rightarrow> bytes \<Rightarrow> bool" where
  "verifyMessage P L messageType messageId from' toOrGroupId timestamp nonce ciphertext
       signature publicKey =
     (let hash = sha256 P (toByteArrayUTF8
                   (canonical P messageType messageId from' toOrGroupId timestamp nonce ciphertext))
      in Signatures_verify L hash signature publicKey)"

subsection \<open>CryptoService.kt\<close>

text \<open>The service forwards to the classes above.\<close>

definition boxSeal :: "LazySodium \<Rightarrow> bytes \<Rightarrow> bytes \<Rightarrow> bytes \<Rightarrow> bytes \<Rightarrow> error + bytes" where
  "boxSeal L message nonce recipientPubKey senderPrivKey =
     NaClBox_seal L message nonce recipientPubKey senderPrivKey"

definition boxOpen :: "LazySodium \<Rightarrow> bytes \<Rightarrow> bytes \<Rightarrow> bytes \<Rightarrow> bytes \<Rightarrow> error + bytes" where
  "boxOpen L ciphertext nonce senderPubKey recipientPrivKey =
     NaClBox_open L ciphertext nonce senderPubKey recipientPrivKey"

definition secretBoxSeal :: "LazySodium \<Rightarrow> bytes \<Rightarrow> bytes \<Rightarrow> bytes \<Rightarrow> error + bytes" where
  "secretBoxSeal L message nonce key = NaClSecretBox_seal L message nonce key"

definition secretBoxOpen :: "LazySodium \<Rightarrow> bytes \<Rightarrow> bytes \<Rightarrow> bytes \<Rightarrow> error + bytes" where
  "secretBoxOpen L ciphertext nonce key = NaClSecretBox_open L ciphertext nonce key"

subsection \<open>HKDF as the design document states it\<close>

text \<open>
  The blocks of RFC 5869 in the words of the design: \<open>T(0)\<close> is empty,
  \<open>T(i) = HMAC(prk, T(i-1) || info || byte(i))\<close>, and the output keying material is the
  concatenation \<open>T(1) || ... || T(n)\<close>. \<open>hmacLength\<close> says that the MAC primitive
  delivers 32 bytes, as HMAC-SHA256 does.
\<close>

fun hkdfT :: "Platform \<Rightarrow> bytes \<Rightarrow> bytes \<Rightarrow> nat \<Rightarrow> bytes" where
  "hkdfT P prk info 0 = []"
| "hkdfT P prk info (Suc i) =
     hmacSHA256 P prk (hkdfT P prk info i @ info @ [of_nat (Suc i)])"

definition hkdfBlocks :: "Platform \<Rightarrow> bytes \<Rightarrow> bytes \<Rightarrow> nat \<Rightarrow> bytes" where
  "hkdfBlocks P prk info n = concat (map (hkdfT P prk info) [1..<Suc n])"

definition hmacLength :: "Platform \<Rightarrow> bool" where
  "hmacLength P = (\<forall>key data. length (hmacSHA256 P key data) = 32)"

subsection \<open>What the box of libsodium guarantees\<close>

text \<open>
  An X25519 key pair as \<^verbatim>\<open>KeyDerivation\<close> builds it: a 32-byte private key and the public
  key that \<^verbatim>\<open>crypto_scalarmult_base\<close> writes into a 32-byte buffer. \<open>boxCorrect\<close> is the
  contract of \<^verbatim>\<open>crypto_box_easy\<close> and \<^verbatim>\<open>crypto_box_open_easy\<close>: for two key pairs and a
  24-byte nonce, sealing to the recipient's public key with the sender's private key
  succeeds and writes 16 bytes more than the message, and opening that output with the
  sender's public key and the recipient's private key succeeds and writes the message.
\<close>

definition x25519KeyPair :: "LazySodium \<Rightarrow> bytes \<Rightarrow> bytes \<Rightarrow> bool" where
  "x25519KeyPair L pk sk =
     (length sk = 32 \<and> pk = fill (replicate 32 0) (cryptoScalarmultBase L sk))"

definition boxCorrect :: "LazySodium \<Rightarrow> bool" where
  "boxCorrect L =
     (\<forall>pkS skS pkR skR m n.
        x25519KeyPair L pkS skS \<and> x25519KeyPair L pkR skR \<and> length n = 24 \<longrightarrow>
        (\<exists>c. cryptoBoxEasy L m n pkR skS = (True, c) \<and> length c = length m + 16
           \<and> cryptoBoxOpenEasy L c n pkS skR = (True, m)))"

subsection \<open>Stand-ins for the library primitives\<close>

text \<open>
  Simple total functions in the place of the library primitives, to instantiate the
  theorems at concrete inputs. \<open>normalizeNFKD\<close> is the identity, as NFKD is on ASCII
  text; the hash delivers the first 32 bytes of its padded input, the MAC 31 times the
  last byte of the data and then the first byte of the key, the key derivation the
  requested number of bytes of salt, password and padding; the box prepends a 16-byte tag
  that opening checks; a signature is the signed message twice.
\<close>

definition stubPlatform :: Platform where
  "stubPlatform =
     \<lparr>normalizeNFKD = (\<lambda>s. s),
      encodeBase64 = (\<lambda>bs. concat (map (\<lambda>b. [char_of (65 + unat b div 16), char_of (65 + unat b mod 16)]) bs)),
      sha256 = (\<lambda>m. take 32 (m @ replicate 32 0)),
      hmacSHA256 = (\<lambda>k d. replicate 31 (last (0 # d)) @ [hd (k @ [0])]),
      pbkdf2HmacSHA512 = (\<lambda>password salt iterations keyLength.
         take (keyLength div 8)
           (salt @ toByteArrayUTF8 password @ replicate (keyLength div 8) (of_nat iterations)))\<rparr>"


definition stubSodium :: LazySodium where
  "stubSodium =
     \<lparr>cryptoScalarmultBase = (\<lambda>sk. sk),
      cryptoSignSeedKeypair = (\<lambda>seed. (seed, seed @ seed)),
      cryptoBoxEasy = (\<lambda>m n pk sk. (True, replicate 16 1 @ m)),
      cryptoBoxOpenEasy = (\<lambda>c n pk sk.
         if take 16 c = replicate 16 1 then (True, drop 16 c) else (False, [])),
      cryptoSecretBoxEasy = (\<lambda>m n k. (True, replicate 16 1 @ m)),
      cryptoSecretBoxOpenEasy = (\<lambda>c n k.
         if take 16 c = replicate 16 1 then (True, drop 16 c) else (False, [])),
      cryptoSignDetached = (\<lambda>m sk. m @ m),
      cryptoSignVerifyDetached = (\<lambda>sig m pk. sig = m @ m)\<rparr>"

section \<open>Properties\<close>

subsection \<open>Reconnect policy and transport\<close>

lemmas policy_defs = shouldRetry_def getDelayMs_def reset_def markAuthExpired_def
  setNetworkAvailable_def shl_def minOf_def RECONNECT_BASE_DELAY_MS_def
  RECONNECT_MAX_DELAY_MS_def RECONNECT_MAX_ATTEMPTS_def
lemmas client_defs = connect_def onOpen_def attemptReconnect_def onFailure_def onClosed_def
  delayElapsed_def disconnect_def clientMarkAuthExpired_def


lemma getDelayMs_table:
  "list_all (\<lambda>n. sint (fst (getDelayMs \<lparr>attemptCount = of_nat n, isAuthExpired = a, isNetworkAvailable = b\<rparr>))
       = min (1000 * 2 ^ n) 30000) [0..<31]"
  by (simp add: upt_rec policy_defs word_sle_eq word_sless_alt)

lemma getDelayMs_fst:
  "fst (getDelayMs p) =
   fst (getDelayMs \<lparr>attemptCount = attemptCount p, isAuthExpired = False, isNetworkAvailable = True\<rparr>)"
  by (simp add: getDelayMs_def Let_def)

lemma getDelayMs_value:
  assumes "attemptCount p = of_nat n" "n < 31"
  shows "sint (fst (getDelayMs p)) = min (1000 * 2 ^ n) 30000"
proof -
  from assms(2) have "n \<in> set [0..<31]" by simp
  with getDelayMs_table [of False True]
  have "sint (fst (getDelayMs \<lparr>attemptCount = of_nat n, isAuthExpired = False, isNetworkAvailable = True\<rparr>))
        = min (1000 * 2 ^ n) 30000"
    unfolding list_all_iff by blast
  with assms(1) getDelayMs_fst [of p] show ?thesis by simp
qed

lemma getDelayMs_snd: "snd (getDelayMs p) = p\<lparr>attemptCount := attemptCount p + 1\<rparr>"
  by (simp add: getDelayMs_def Let_def)

lemma small_count_sless: "n < 5 \<Longrightarrow> (of_nat n :: 32 word) <s RECONNECT_MAX_ATTEMPTS"
proof -
  assume "n < 5"
  then have "n = 0 \<or> n = 1 \<or> n = 2 \<or> n = 3 \<or> n = 4" by arith
  then show ?thesis
    by (auto simp add: RECONNECT_MAX_ATTEMPTS_def word_sless_alt)
qed

lemma failure_step:
  assumes "shouldRetry (reconnectPolicy c)" "reconnectJobs c = []"
  shows "reconnectJobs (onFailure c) = [fst (getDelayMs (reconnectPolicy c))]"
    and "reconnectPolicy (delayElapsed (onFailure c)) = snd (getDelayMs (reconnectPolicy c))"
    and "reconnectJobs (delayElapsed (onFailure c)) = []"
  using assms
  by (simp_all add: onFailure_def attemptReconnect_def delayElapsed_def connect_def
      split: prod.splits)

lemma failures_exhausted:
  "\<not> shouldRetry (reconnectPolicy c) \<Longrightarrow> reconnectJobs c = [] \<Longrightarrow>
   failures k c = ([], if k = 0 then c else c\<lparr>connectionState := DISCONNECTED\<rparr>)"
proof (induction k arbitrary: c)
  case 0
  then show ?case by simp
next
  case (Suc k)
  let ?d = "c\<lparr>connectionState := DISCONNECTED\<rparr>"
  from Suc.prems have step: "onFailure c = ?d" "delayElapsed ?d = ?d"
    by (simp_all add: onFailure_def attemptReconnect_def delayElapsed_def)
  from Suc.prems have "failures k ?d = ([], if k = 0 then ?d else ?d\<lparr>connectionState := DISCONNECTED\<rparr>)"
    by (intro Suc.IH) simp_all
  then have "failures k ?d = ([], ?d)" by (cases k) simp_all
  with step Suc.prems show ?case by simp
qed

lemma failures_add:
  "failures (j + k) c =
     (let (ds, c1) = failures j c; (es, c2) = failures k c1 in (ds @ es, c2))"
  by (induction j arbitrary: c) (simp_all add: Let_def split: prod.splits)

lemma failures_from:
  "attemptCount (reconnectPolicy c) = of_nat n \<Longrightarrow> n + k \<le> 5 \<Longrightarrow>
   \<not> isAuthExpired (reconnectPolicy c) \<Longrightarrow> isNetworkAvailable (reconnectPolicy c) \<Longrightarrow>
   reconnectJobs c = [] \<Longrightarrow>
   map sint (fst (failures k c)) = map (\<lambda>i. min (1000 * 2 ^ i) 30000) [n..<n + k]
   \<and> attemptCount (reconnectPolicy (snd (failures k c))) = of_nat (n + k)
   \<and> \<not> isAuthExpired (reconnectPolicy (snd (failures k c)))
   \<and> isNetworkAvailable (reconnectPolicy (snd (failures k c)))
   \<and> reconnectJobs (snd (failures k c)) = []"
proof (induction k arbitrary: c n)
  case 0
  then show ?case by simp
next
  case (Suc k)
  let ?p = "reconnectPolicy c"
  let ?c' = "delayElapsed (onFailure c)"
  from Suc.prems have n: "n < 5" by simp
  with Suc.prems have retry: "shouldRetry ?p"
    by (simp add: shouldRetry_def small_count_sless)
  note st = failure_step [OF retry \<open>reconnectJobs c = []\<close>]
  from n Suc.prems have d: "sint (fst (getDelayMs ?p)) = min (1000 * 2 ^ n) 30000"
    by (intro getDelayMs_value) simp_all
  have pol: "reconnectPolicy ?c' = ?p\<lparr>attemptCount := of_nat (Suc n)\<rparr>"
    using st(2) Suc.prems(1) by (simp add: getDelayMs_snd)
  have ih: "map sint (fst (failures k ?c')) = map (\<lambda>i. min (1000 * 2 ^ i) 30000) [Suc n..<Suc n + k]
   \<and> attemptCount (reconnectPolicy (snd (failures k ?c'))) = of_nat (Suc n + k)
   \<and> \<not> isAuthExpired (reconnectPolicy (snd (failures k ?c')))
   \<and> isNetworkAvailable (reconnectPolicy (snd (failures k ?c')))
   \<and> reconnectJobs (snd (failures k ?c')) = []"
    using Suc.prems pol st(3) by (intro Suc.IH) simp_all
  have unf: "failures (Suc k) c = (reconnectJobs (onFailure c) @ fst (failures k ?c'), snd (failures k ?c'))"
    by (simp add: Let_def split: prod.splits)
  have upt: "[n..<n + Suc k] = n # [Suc n..<Suc n + k]"
    by (simp add: upt_rec)
  show ?case
    unfolding unf upt using ih d st(1) by simp
qed


lemma exhausted_count: "attemptCount p = 5 \<Longrightarrow> \<not> shouldRetry p"
  by (simp add: shouldRetry_def RECONNECT_MAX_ATTEMPTS_def word_sless_alt)

lemma failures_capped:
  assumes "attemptCount (reconnectPolicy c) = 0" "\<not> isAuthExpired (reconnectPolicy c)"
    "isNetworkAvailable (reconnectPolicy c)" "reconnectJobs c = []"
  shows "map sint (fst (failures k c)) = map (\<lambda>n. min (1000 * 2 ^ n) 30000) [0..<min k 5]
    \<and> attemptCount (reconnectPolicy (snd (failures k c))) = of_nat (min k 5)"
proof (cases "k \<le> 5")
  case True
  with assms failures_from [of c 0 k] show ?thesis by (simp add: min_def)
next
  case False
  then have k: "k = 5 + (k - 5)" "k - 5 \<noteq> 0" by simp_all
  obtain ds c1 where f5: "failures 5 c = (ds, c1)" by (cases "failures 5 c")
  from assms failures_from [of c 0 5] f5
  have five: "map sint ds = map (\<lambda>i. min (1000 * 2 ^ i) 30000) [0..<5]"
    "attemptCount (reconnectPolicy c1) = 5" "reconnectJobs c1 = []"
    by simp_all
  from five(2) have "\<not> shouldRetry (reconnectPolicy c1)" by (rule exhausted_count)
  with five(3) k(2) have rest: "failures (k - 5) c1 = ([], c1\<lparr>connectionState := DISCONNECTED\<rparr>)"
    by (simp add: failures_exhausted)
  have "failures k c = (ds, c1\<lparr>connectionState := DISCONNECTED\<rparr>)"
    by (subst k(1)) (simp add: failures_add f5 rest)
  with five False show ?thesis by (simp add: min_def)
qed

text \<open>
  Claim C7. Start from a client whose policy is fresh or reset (attempt counter 0, not
  auth-expired, network available) and that has no reconnect pending, and let the
  transport fail \<open>k\<close> times in a row. The delay issued for attempt \<open>n\<close> is
  \<open>min (1000 * 2 ^ n) 30000\<close> milliseconds, the attempt counter equals the number of
  delays issued, and the next \<^verbatim>\<open>onOpen\<close> (the transition to \<open>CONNECTED\<close>) sets the counter
  to zero. The transport issues delays for the attempts 0 to 4; from the sixth failure on
  \<^verbatim>\<open>shouldRetry\<close> is false and none is issued. The policy itself computes
  \<open>min (1000 * 2 ^ n) 30000\<close> at every attempt counter \<open>n < 31\<close> and increments the
  counter by one, so that the cap at 30000 applies from attempt 5 on.
\<close>

theorem reconnect_backoff:
  assumes "attemptCount (reconnectPolicy c) = 0" "\<not> isAuthExpired (reconnectPolicy c)"
    "isNetworkAvailable (reconnectPolicy c)" "reconnectJobs c = []"
  shows "map sint (fst (failures k c)) = map (\<lambda>n. min (1000 * 2 ^ n) 30000) [0..<min k 5]
    \<and> unat (attemptCount (reconnectPolicy (snd (failures k c)))) = length (fst (failures k c))
    \<and> attemptCount (reconnectPolicy (onOpen (snd (failures k c)))) = 0
    \<and> (\<forall>n p. n < 31 \<and> attemptCount p = of_nat n \<longrightarrow>
          sint (fst (getDelayMs p)) = min (1000 * 2 ^ n) 30000
          \<and> attemptCount (snd (getDelayMs p)) = of_nat (Suc n)
          \<and> attemptCount (reset (snd (getDelayMs p))) = 0)"
proof -
  note cap = failures_capped [OF assms, of k]
  from cap have "length (map sint (fst (failures k c))) = min k 5" by simp
  then have len: "length (fst (failures k c)) = min k 5" by simp
  have u: "unat (of_nat (min k 5) :: 32 word) = min k 5"
    by (simp add: unat_of_nat min_def)
  have pol: "sint (fst (getDelayMs p)) = min (1000 * 2 ^ n) 30000
      \<and> attemptCount (snd (getDelayMs p)) = of_nat (Suc n)
      \<and> attemptCount (reset (snd (getDelayMs p))) = 0"
    if "n < 31" "attemptCount p = of_nat n" for n p
    using that getDelayMs_value [of p n] by (simp add: getDelayMs_snd reset_def)
  from cap len u have "map sint (fst (failures k c)) = map (\<lambda>n. min (1000 * 2 ^ n) 30000) [0..<min k 5]
    \<and> unat (attemptCount (reconnectPolicy (snd (failures k c)))) = length (fst (failures k c))
    \<and> attemptCount (reconnectPolicy (onOpen (snd (failures k c)))) = 0"
    by (simp add: onOpen_def reset_def)
  with pol show ?thesis by blast
qed

theorem reconnect_backoff_witness:
  "attemptCount (reconnectPolicy (connect newClient)) = 0
   \<and> \<not> isAuthExpired (reconnectPolicy (connect newClient))
   \<and> isNetworkAvailable (reconnectPolicy (connect newClient))
   \<and> reconnectJobs (connect newClient) = []
   \<and> map sint (fst (failures 7 (connect newClient))) = [1000, 2000, 4000, 8000, 16000]
   \<and> unat (attemptCount (reconnectPolicy (snd (failures 7 (connect newClient))))) = 5
   \<and> attemptCount (reconnectPolicy (onOpen (snd (failures 7 (connect newClient))))) = 0
   \<and> sint (fst (getDelayMs (newPolicy\<lparr>attemptCount := 4\<rparr>))) = 16000
   \<and> sint (fst (getDelayMs (newPolicy\<lparr>attemptCount := 5\<rparr>))) = 30000
   \<and> attemptCount (snd (getDelayMs (newPolicy\<lparr>attemptCount := 5\<rparr>))) = 6
   \<and> sint (fst (getDelayMs (newPolicy\<lparr>attemptCount := 6\<rparr>))) = 30000
   \<and> sint (fst (getDelayMs (newPolicy\<lparr>attemptCount := 30\<rparr>))) = 30000"
proof -
  have h: "attemptCount (reconnectPolicy (connect newClient)) = 0"
    "\<not> isAuthExpired (reconnectPolicy (connect newClient))"
    "isNetworkAvailable (reconnectPolicy (connect newClient))"
    "reconnectJobs (connect newClient) = []"
    by (simp_all add: connect_def newClient_def newPolicy_def)
  have u: "[0..<min 7 (5::nat)] = [0, 1, 2, 3, 4]" by (simp add: upt_rec)
  note r = reconnect_backoff [OF h, of 7]
  from r u have m: "map sint (fst (failures 7 (connect newClient))) = [1000, 2000, 4000, 8000, 16000]"
    by simp
  then have "length (map sint (fst (failures 7 (connect newClient)))) = 5" by simp
  then have l: "length (fst (failures 7 (connect newClient))) = 5" by simp
  from r have pol: "n < 31 \<Longrightarrow> attemptCount p = of_nat n \<Longrightarrow>
      sint (fst (getDelayMs p)) = min (1000 * 2 ^ n) 30000
      \<and> attemptCount (snd (getDelayMs p)) = of_nat (Suc n)" for n p
    by blast
  have p4: "sint (fst (getDelayMs (newPolicy\<lparr>attemptCount := 4\<rparr>))) = 16000"
    using pol [of 4 "newPolicy\<lparr>attemptCount := 4\<rparr>"] by simp
  have p5: "sint (fst (getDelayMs (newPolicy\<lparr>attemptCount := 5\<rparr>))) = 30000"
    "attemptCount (snd (getDelayMs (newPolicy\<lparr>attemptCount := 5\<rparr>))) = 6"
    using pol [of 5 "newPolicy\<lparr>attemptCount := 5\<rparr>"] by simp_all
  have p6: "sint (fst (getDelayMs (newPolicy\<lparr>attemptCount := 6\<rparr>))) = 30000"
    using pol [of 6 "newPolicy\<lparr>attemptCount := 6\<rparr>"] by simp
  have p30: "sint (fst (getDelayMs (newPolicy\<lparr>attemptCount := 30\<rparr>))) = 30000"
    using pol [of 30 "newPolicy\<lparr>attemptCount := 30\<rparr>"] by simp
  from r m l h p4 p5 p6 p30 show ?thesis by simp
qed

text \<open>
  Claim C8, at the trace where the code departs from it. The transport fails once, a
  reconnect delay of 1000 ms is pending; then \<^verbatim>\<open>markAuthExpired()\<close> is invoked. The
  pending coroutine is not cancelled: when its delay elapses it calls \<^verbatim>\<open>connect()\<close>, the
  state goes from \<open>AUTH_EXPIRED\<close> to \<open>CONNECTING\<close>, \<^verbatim>\<open>onOpen\<close> resets the policy and
  thereby clears the auth-expired flag, and the next failure issues a new reconnect.
\<close>

theorem reconnect_after_auth_expired:
  "isAuthExpired (reconnectPolicy (run [Connect, OnFailure, MarkAuthExpired] newClient))
   \<and> connectionState (run [Connect, OnFailure, MarkAuthExpired] newClient) = AUTH_EXPIRED
   \<and> connectionState (run [Connect, OnFailure, MarkAuthExpired, DelayElapsed] newClient) = CONNECTING
   \<and> \<not> isAuthExpired (reconnectPolicy
         (run [Connect, OnFailure, MarkAuthExpired, DelayElapsed, OnOpen] newClient))
   \<and> connectionState
         (run [Connect, OnFailure, MarkAuthExpired, DelayElapsed, OnOpen, OnFailure] newClient)
       = RECONNECTING
   \<and> reconnectJobs
         (run [Connect, OnFailure, MarkAuthExpired, DelayElapsed, OnOpen, OnFailure] newClient)
       = [1000]"
  by (simp add: run_def client_defs policy_defs newClient_def newPolicy_def Let_def
      word_sle_eq word_sless_alt)


text \<open>
  The part of claim C8 that the code keeps: while the network is marked unavailable or
  the policy is auth-expired, \<^verbatim>\<open>shouldRetry\<close> is false, and a failure then only sets the
  state to \<open>DISCONNECTED\<close>: the attempt counter and the pending reconnects are unchanged.
\<close>

lemma no_retry_when_suppressed:
  assumes "\<not> isNetworkAvailable (reconnectPolicy c) \<or> isAuthExpired (reconnectPolicy c)"
  shows "\<not> shouldRetry (reconnectPolicy c)"
    and "onFailure c = c\<lparr>connectionState := DISCONNECTED\<rparr>"
  using assms by (auto simp add: shouldRetry_def onFailure_def attemptReconnect_def)

subsection \<open>Mnemonic and seed\<close>

lemmas text_defs = normalizeMnemonic_def trim_def isWhitespace_def isRegexSpace_def
  lowercase_def lowercaseChar_def

lemma char_of_eq_char: "(char_of n = c) = (n mod 256 = (of_char c :: nat))"
  by (auto simp add: char_of_eq_iff take_bit_eq_mod)

lemma char_eq_char_of: "(c = char_of n) = (n mod 256 = (of_char c :: nat))"
  using char_of_eq_char [of n c] by auto

lemma words_length: "length BIP39WordList_words = 203"
  by (simp add: BIP39WordList_words_def)

lemma toBinaryString8_ones: "toBinaryString8 255 = ''11111111''"
  by (simp add: toBinaryString8_def upt_rec)

lemma ones_bits: "concat (replicate n (toBinaryString8 255)) = replicate (8 * n) CHR ''1''"
proof (induction n)
  case 0
  then show ?case by simp
next
  case (Suc n)
  have e: "toBinaryString8 255 = replicate 8 CHR ''1''"
    by (simp add: toBinaryString8_ones eval_nat_numeral)
  have "concat (replicate (Suc n) (toBinaryString8 255))
      = replicate 8 CHR ''1'' @ replicate (8 * n) CHR ''1''"
    using Suc e by simp
  also have "\<dots> = replicate (8 + 8 * n) CHR ''1''"
    by (simp only: replicate_add)
  finally show ?case by simp
qed

lemma toInt2_ones: "toInt2 (replicate 11 CHR ''1'') = 2047"
  by (simp add: toInt2_def eval_nat_numeral)

lemma getWords_bad_index:
  "\<not> i < length BIP39WordList_words \<Longrightarrow> getWords (i # is) = Inl IndexOutOfBoundsException"
  by (simp add: getWord_def)

lemma entropyToMnemonic_all_ones:
  "entropyToMnemonic P (replicate 16 255) = Inl IndexOutOfBoundsException"
proof (cases "sha256 P (replicate 16 255) = []")
  case True
  then show ?thesis by (simp add: entropyToMnemonic_def)
next
  case False
  define c where "c = map (checksumBit (hd (sha256 P (replicate 16 255)))) [0..<4]"
  define bits where "bits = concat (map toBinaryString8 (replicate 16 (255::byte))) @ c"
  have bits: "bits = replicate 128 CHR ''1'' @ c" by (simp add: bits_def ones_bits)
  have len: "length bits div 11 = 12" by (simp add: bits c_def)
  have first: "toInt2 (substring bits 0 11) = 2047"
    by (simp add: substring_def bits toInt2_ones)
  have "[0..<12] = 0 # [1..<12]" by (simp add: upt_rec)
  then have "map (\<lambda>i. toInt2 (substring bits (i * 11) ((i + 1) * 11))) [0..<length bits div 11]
     = 2047 # map (\<lambda>i. toInt2 (substring bits (i * 11) ((i + 1) * 11))) [1..<12]"
    using first len by simp
  then have "getWords (map (\<lambda>i. toInt2 (substring bits (i * 11) ((i + 1) * 11))) [0..<length bits div 11])
     = Inl IndexOutOfBoundsException"
    by (simp add: getWord_def words_length)
  with False show ?thesis
    by (simp add: entropyToMnemonic_def Let_def bits_def c_def)
qed

text \<open>
  Claim C2, at an input where the code departs from it. The word list of the generated
  \<^verbatim>\<open>BIP39WordList.kt\<close> has 203 entries, not the 2048 its comment announces, so
  \<^verbatim>\<open>getWord\<close> throws on every index from 203 on. When the random generator delivers 16
  bytes \<open>0xFF\<close>, the first 11-bit group is 2047 and \<^verbatim>\<open>generateMnemonic\<close> throws
  \<^verbatim>\<open>IndexOutOfBoundsException\<close>, whatever the hash function is.
\<close>

theorem generateMnemonic_word_list_truncated:
  "length BIP39WordList_words = 203
   \<and> getWord 2047 = Inl IndexOutOfBoundsException
   \<and> generateMnemonic P (\<lambda>n. replicate n 255) = Inl IndexOutOfBoundsException"
proof -
  have "fill (replicate 16 0) (replicate 16 255) = replicate 16 (255::byte)"
    by (simp add: fill_def)
  then show ?thesis
    by (simp add: generateMnemonic_def entropyToMnemonic_all_ones words_length getWord_def)
qed

text \<open>
  Claim C3 as stated fails: \<^verbatim>\<open>validateMnemonic\<close> checks the number of words and their
  membership in the list, never the checksum. The phrase of eleven times ``abandon'' and
  ``about'' validates, and so does the phrase with its first word replaced by ``ability''.
\<close>

theorem validateMnemonic_substitution_counterexample:
  "validateMnemonic stubPlatform
     ''abandon abandon abandon abandon abandon abandon abandon abandon abandon abandon abandon about''
   \<and> validateMnemonic stubPlatform
     ''ability abandon abandon abandon abandon abandon abandon abandon abandon abandon abandon about''"
  by (simp add: validateMnemonic_def text_defs stubPlatform_def isValidWord_def
      BIP39WordList_words_def Let_def)

text \<open>
  Claim C3 as amended. Take a phrase that validates and replace the word at one position
  of its normalised word sequence by a word \<open>w\<close>. The new phrase validates exactly when
  \<open>w\<close> passes \<^verbatim>\<open>isValidWord\<close>, that is, when its lower-case form is one of the 203 entries
  that the generated word list holds. No checksum enters: a substitution by a listed word
  is never detected, a substitution by any other word always is. \<^verbatim>\<open>validateMnemonic\<close> is
  a total boolean function: it has no path that throws.
\<close>

theorem validateMnemonic_substitution:
  assumes "validateMnemonic P m"
    and "i < length (splitSpace (normalizeMnemonic P m))"
    and "splitSpace (normalizeMnemonic P m') = (splitSpace (normalizeMnemonic P m))[i := w]"
  shows "validateMnemonic P m' \<longleftrightarrow> isValidWord w"
proof -
  let ?ws = "splitSpace (normalizeMnemonic P m)"
  from assms(1) have len: "length ?ws = 12 \<or> length ?ws = 24" and ok: "list_all isValidWord ?ws"
    by (auto simp add: validateMnemonic_def Let_def split: if_splits)
  have sub: "set (?ws[i := w]) \<subseteq> insert w (set ?ws)" by (rule set_update_subset_insert)
  from assms(2) have mem: "w \<in> set (?ws[i := w])" by (rule set_update_memI)
  have "list_all isValidWord (?ws[i := w]) \<longleftrightarrow> isValidWord w"
    using ok sub mem by (auto simp add: list_all_iff)
  with len assms(3) show ?thesis
    by (auto simp add: validateMnemonic_def Let_def)
qed

theorem validateMnemonic_substitution_witness:
  "validateMnemonic stubPlatform
     ''abandon abandon abandon abandon abandon abandon abandon abandon abandon abandon abandon about''
   \<and> 2 < length (splitSpace (normalizeMnemonic stubPlatform
       ''abandon abandon abandon abandon abandon abandon abandon abandon abandon abandon abandon about''))
   \<and> splitSpace (normalizeMnemonic stubPlatform
       ''abandon abandon zoo abandon abandon abandon abandon abandon abandon abandon abandon about'')
     = (splitSpace (normalizeMnemonic stubPlatform
       ''abandon abandon abandon abandon abandon abandon abandon abandon abandon abandon abandon about''))
       [2 := ''zoo'']
   \<and> isValidWord ''zoo''
   \<and> validateMnemonic stubPlatform
     ''abandon abandon zoo abandon abandon abandon abandon abandon abandon abandon abandon about''
   \<and> splitSpace (normalizeMnemonic stubPlatform
       ''abandon abandon zebra abandon abandon abandon abandon abandon abandon abandon abandon about'')
     = (splitSpace (normalizeMnemonic stubPlatform
       ''abandon abandon abandon abandon abandon abandon abandon abandon abandon abandon abandon about''))
       [2 := ''zebra'']
   \<and> \<not> isValidWord ''zebra''
   \<and> \<not> validateMnemonic stubPlatform
     ''abandon abandon zebra abandon abandon abandon abandon abandon abandon abandon abandon about''"
proof -
  let ?m = "''abandon abandon abandon abandon abandon abandon abandon abandon abandon abandon abandon about''"
  let ?zoo = "''abandon abandon zoo abandon abandon abandon abandon abandon abandon abandon abandon about''"
  let ?zebra = "''abandon abandon zebra abandon abandon abandon abandon abandon abandon abandon abandon about''"
  have a: "validateMnemonic stubPlatform ?m"
    by (simp add: validateMnemonic_def text_defs stubPlatform_def isValidWord_def
        BIP39WordList_words_def Let_def)
  have i: "2 < length (splitSpace (normalizeMnemonic stubPlatform ?m))"
    by (simp add: text_defs stubPlatform_def)
  have b: "isValidWord ''zoo''"
    by (simp add: isValidWord_def lowercase_def lowercaseChar_def BIP39WordList_words_def)
  have c: "splitSpace (normalizeMnemonic stubPlatform ?zoo)
      = (splitSpace (normalizeMnemonic stubPlatform ?m))[2 := ''zoo'']"
    by (simp add: text_defs stubPlatform_def)
  have d: "\<not> isValidWord ''zebra''"
    by (simp add: isValidWord_def lowercase_def lowercaseChar_def BIP39WordList_words_def)
  have e: "splitSpace (normalizeMnemonic stubPlatform ?zebra)
      = (splitSpace (normalizeMnemonic stubPlatform ?m))[2 := ''zebra'']"
    by (simp add: text_defs stubPlatform_def)
  from validateMnemonic_substitution [OF a i c] b
  have f: "validateMnemonic stubPlatform ?zoo" by blast
  from validateMnemonic_substitution [OF a i e] d
  have g: "\<not> validateMnemonic stubPlatform ?zebra" by blast
  from a i b c d e f g show ?thesis by blast
qed

lemma salt_bytes: "toByteArrayUTF8 ''mnemonic'' = [109, 110, 101, 109, 111, 110, 105, 99]"
  by (simp add: toByteArrayUTF8_def)

lemma messy_phrase:
  assumes "normalizeNFKD P (''  ABANDON abandon   abandon'' @ [CHR 0x09] @ ''abandon abandon abandon abandon abandon abandon abandon abandon'' @ [CHR 0x0A] @ ''About '')
      = (''  ABANDON abandon   abandon'' @ [CHR 0x09] @ ''abandon abandon abandon abandon abandon abandon abandon abandon'' @ [CHR 0x0A] @ ''About '')"
  shows "normalizeMnemonic P (''  ABANDON abandon   abandon'' @ [CHR 0x09] @ ''abandon abandon abandon abandon abandon abandon abandon abandon'' @ [CHR 0x0A] @ ''About '')
      = ''abandon abandon abandon abandon abandon abandon abandon abandon abandon abandon abandon about''"
  using assms by (simp add: text_defs char_of_eq_char)

lemma plain_phrase_words:
  "list_all isValidWord (splitSpace ''abandon abandon abandon abandon abandon abandon abandon abandon abandon abandon abandon about'')"
  "length (splitSpace ''abandon abandon abandon abandon abandon abandon abandon abandon abandon abandon abandon about'') = 12"
  by (simp_all add: isValidWord_def lowercase_def lowercaseChar_def BIP39WordList_words_def)

text \<open>
  Claim C4. \<^verbatim>\<open>seedFromMnemonic\<close> throws \<^verbatim>\<open>InvalidMnemonicException\<close> exactly when
  \<^verbatim>\<open>validateMnemonic\<close> rejects the phrase; on a phrase that validates it returns the
  output of PBKDF2-HMAC-SHA512 on the normalised phrase with the eight bytes of
  ``mnemonic'' as salt, 2048 iterations and 512 bits, which has 64 bytes when the
  primitive delivers the number of bytes it is asked for. The normalised phrase is the
  trimmed, single-spaced, lower-case form: a phrase in capitals, with tabs, line feeds and
  runs of blanks between and around its words, which NFKD leaves as it is, validates, and
  the password that reaches PBKDF2 is its twelve words in lower case joined by single
  blanks. Nothing but \<^verbatim>\<open>InvalidMnemonicException\<close> is thrown.
\<close>

theorem seedFromMnemonic_result:
  "(seedFromMnemonic P m = Inl InvalidMnemonicException \<longleftrightarrow> \<not> validateMnemonic P m)
   \<and> (validateMnemonic P m \<longrightarrow>
        seedFromMnemonic P m =
          Inr (pbkdf2HmacSHA512 P (normalizeMnemonic P m) (toByteArrayUTF8 ''mnemonic'') 2048 512))
   \<and> (validateMnemonic P m \<and> (\<forall>pw s n b. length (pbkdf2HmacSHA512 P pw s n b) = b div 8) \<longrightarrow>
        (\<exists>seed. seedFromMnemonic P m = Inr seed \<and> length seed = 64))
   \<and> (validateMnemonic P m \<longrightarrow>
        seedFromMnemonic P m =
          Inr (pbkdf2HmacSHA512 P
                 (lowercase (replaceSpaceRuns False (trim (normalizeNFKD P m))))
                 [109, 110, 101, 109, 111, 110, 105, 99] 2048 512))
   \<and> (\<forall>e. seedFromMnemonic P m = Inl e \<longrightarrow> e = InvalidMnemonicException)
   \<and> (normalizeNFKD P (''  ABANDON abandon   abandon'' @ [CHR 0x09] @ ''abandon abandon abandon abandon abandon abandon abandon abandon'' @ [CHR 0x0A] @ ''About '')
        = (''  ABANDON abandon   abandon'' @ [CHR 0x09] @ ''abandon abandon abandon abandon abandon abandon abandon abandon'' @ [CHR 0x0A] @ ''About '')
      \<longrightarrow> validateMnemonic P (''  ABANDON abandon   abandon'' @ [CHR 0x09] @ ''abandon abandon abandon abandon abandon abandon abandon abandon'' @ [CHR 0x0A] @ ''About '')
        \<and> seedFromMnemonic P (''  ABANDON abandon   abandon'' @ [CHR 0x09] @ ''abandon abandon abandon abandon abandon abandon abandon abandon'' @ [CHR 0x0A] @ ''About '')
          = Inr (pbkdf2HmacSHA512 P
                   ''abandon abandon abandon abandon abandon abandon abandon abandon abandon abandon abandon about''
                   [109, 110, 101, 109, 111, 110, 105, 99] 2048 512))"
proof -
  have general: "(seedFromMnemonic P m = Inl InvalidMnemonicException \<longleftrightarrow> \<not> validateMnemonic P m)
   \<and> (validateMnemonic P m \<longrightarrow>
        seedFromMnemonic P m =
          Inr (pbkdf2HmacSHA512 P (normalizeMnemonic P m) (toByteArrayUTF8 ''mnemonic'') 2048 512))
   \<and> (validateMnemonic P m \<and> (\<forall>pw s n b. length (pbkdf2HmacSHA512 P pw s n b) = b div 8) \<longrightarrow>
        (\<exists>seed. seedFromMnemonic P m = Inr seed \<and> length seed = 64))
   \<and> (\<forall>e. seedFromMnemonic P m = Inl e \<longrightarrow> e = InvalidMnemonicException)"
    by (simp add: seedFromMnemonic_def Let_def BIP39_SALT_def BIP39_ITERATIONS_def
        BIP39_SEED_LENGTH_def)
  have explicit: "validateMnemonic P m \<longrightarrow>
        seedFromMnemonic P m =
          Inr (pbkdf2HmacSHA512 P
                 (lowercase (replaceSpaceRuns False (trim (normalizeNFKD P m))))
                 [109, 110, 101, 109, 111, 110, 105, 99] 2048 512)"
    by (simp add: seedFromMnemonic_def Let_def BIP39_SALT_def BIP39_ITERATIONS_def
        BIP39_SEED_LENGTH_def salt_bytes normalizeMnemonic_def)
  have pinned: "validateMnemonic P (''  ABANDON abandon   abandon'' @ [CHR 0x09] @ ''abandon abandon abandon abandon abandon abandon abandon abandon'' @ [CHR 0x0A] @ ''About '')
        \<and> seedFromMnemonic P (''  ABANDON abandon   abandon'' @ [CHR 0x09] @ ''abandon abandon abandon abandon abandon abandon abandon abandon'' @ [CHR 0x0A] @ ''About '')
          = Inr (pbkdf2HmacSHA512 P
                   ''abandon abandon abandon abandon abandon abandon abandon abandon abandon abandon abandon about''
                   [109, 110, 101, 109, 111, 110, 105, 99] 2048 512)"
    if nf: "normalizeNFKD P (''  ABANDON abandon   abandon'' @ [CHR 0x09] @ ''abandon abandon abandon abandon abandon abandon abandon abandon'' @ [CHR 0x0A] @ ''About '')
        = (''  ABANDON abandon   abandon'' @ [CHR 0x09] @ ''abandon abandon abandon abandon abandon abandon abandon abandon'' @ [CHR 0x0A] @ ''About '')"
  proof -
    note n = messy_phrase [OF nf]
    have v: "validateMnemonic P (''  ABANDON abandon   abandon'' @ [CHR 0x09] @ ''abandon abandon abandon abandon abandon abandon abandon abandon'' @ [CHR 0x0A] @ ''About '')"
      unfolding validateMnemonic_def n Let_def using plain_phrase_words by simp
    then show ?thesis
      unfolding seedFromMnemonic_def n Let_def
      by (simp add: BIP39_SALT_def BIP39_ITERATIONS_def BIP39_SEED_LENGTH_def salt_bytes)
  qed
  from general explicit pinned show ?thesis by blast
qed

theorem seedFromMnemonic_result_witness:
  "normalizeNFKD stubPlatform (''  ABANDON abandon   abandon'' @ [CHR 0x09] @ ''abandon abandon abandon abandon abandon abandon abandon abandon'' @ [CHR 0x0A] @ ''About '')
      = (''  ABANDON abandon   abandon'' @ [CHR 0x09] @ ''abandon abandon abandon abandon abandon abandon abandon abandon'' @ [CHR 0x0A] @ ''About '')
   \<and> validateMnemonic stubPlatform (''  ABANDON abandon   abandon'' @ [CHR 0x09] @ ''abandon abandon abandon abandon abandon abandon abandon abandon'' @ [CHR 0x0A] @ ''About '')
   \<and> (\<forall>pw s n b. length (pbkdf2HmacSHA512 stubPlatform pw s n b) = b div 8)
   \<and> seedFromMnemonic stubPlatform (''  ABANDON abandon   abandon'' @ [CHR 0x09] @ ''abandon abandon abandon abandon abandon abandon abandon abandon'' @ [CHR 0x0A] @ ''About '')
     = Inr ([109, 110, 101, 109, 111, 110, 105, 99]
            @ take 56 (toByteArrayUTF8
                ''abandon abandon abandon abandon abandon abandon abandon abandon abandon abandon abandon about''))
   \<and> \<not> validateMnemonic stubPlatform ''abandon about''
   \<and> seedFromMnemonic stubPlatform ''abandon about'' = Inl InvalidMnemonicException"
proof -
  let ?messy = "(''  ABANDON abandon   abandon'' @ [CHR 0x09] @ ''abandon abandon abandon abandon abandon abandon abandon abandon'' @ [CHR 0x0A] @ ''About '')"
  let ?m = "''abandon abandon abandon abandon abandon abandon abandon abandon abandon abandon abandon about''"
  have nf: "normalizeNFKD stubPlatform ?messy = ?messy"
    by (simp add: stubPlatform_def)
  have b: "\<forall>pw s n b. length (pbkdf2HmacSHA512 stubPlatform pw s n b) = b div 8"
    by (auto simp add: stubPlatform_def min_def)
  have c: "\<not> validateMnemonic stubPlatform ''abandon about''"
    by (simp add: validateMnemonic_def text_defs stubPlatform_def Let_def)
  have long: "56 \<le> length (toByteArrayUTF8 ?m)"
    by (simp add: toByteArrayUTF8_def)
  have d: "pbkdf2HmacSHA512 stubPlatform ?m [109, 110, 101, 109, 111, 110, 105, 99] 2048 512
      = [109, 110, 101, 109, 111, 110, 105, 99] @ take 56 (toByteArrayUTF8 ?m)"
    using long by (simp add: stubPlatform_def)
  from seedFromMnemonic_result [of stubPlatform ?messy] nf
  have v: "validateMnemonic stubPlatform ?messy"
    and e: "seedFromMnemonic stubPlatform ?messy
      = Inr (pbkdf2HmacSHA512 stubPlatform ?m [109, 110, 101, 109, 111, 110, 105, 99] 2048 512)"
    by blast+
  from seedFromMnemonic_result [of stubPlatform "''abandon about''"] c
  have f: "seedFromMnemonic stubPlatform ''abandon about'' = Inl InvalidMnemonicException"
    by blast
  from nf v b c e f show ?thesis unfolding d by blast
qed

subsection \<open>Key derivation\<close>

lemma hkdfT_length: "hmacLength P \<Longrightarrow> length (hkdfT P prk info (Suc i)) = 32"
  by (simp add: hmacLength_def)

lemma expandLoop_blocks:
  assumes hm: "hmacLength P"
  shows "(i + k) * 32 \<le> length okm \<Longrightarrow>
    expandLoop P prk info k (Suc i) (hkdfT P prk info i) okm
      = Inr (take (i * 32) okm @ concat (map (hkdfT P prk info) [Suc i..<Suc (i + k)])
             @ drop ((i + k) * 32) okm)"
proof (induction k arbitrary: i okm)
  case 0
  then show ?case by simp
next
  case (Suc k)
  let ?t = "hkdfT P prk info (Suc i)"
  let ?okm = "take (i * 32) okm @ ?t @ drop (i * 32 + 32) okm"
  have lt: "length ?t = 32" using hm by (rule hkdfT_length)
  have copy: "arraycopy ?t 0 okm ((Suc i - 1) * HASH_LEN) HASH_LEN = Inr ?okm"
    using Suc.prems lt by (simp add: arraycopy_def HASH_LEN_def)
  have len: "(Suc i + k) * 32 \<le> length ?okm"
    using Suc.prems lt by simp
  have tk: "take (Suc i * 32) ?okm = take (i * 32) okm @ ?t"
    using Suc.prems lt by simp
  have dr: "drop ((Suc i + k) * 32) ?okm = drop ((i + Suc k) * 32) okm"
    using Suc.prems lt by (simp add: ac_simps)
  have up: "[Suc i..<Suc (i + Suc k)] = Suc i # [Suc (Suc i)..<Suc (Suc i + k)]"
    by (simp add: upt_rec)
  have "expandLoop P prk info (Suc k) (Suc i) (hkdfT P prk info i) okm
      = expandLoop P prk info k (Suc (Suc i)) ?t ?okm"
    using copy by (simp add: Let_def)
  also have "\<dots> = Inr (take (Suc i * 32) ?okm
       @ concat (map (hkdfT P prk info) [Suc (Suc i)..<Suc (Suc i + k)])
       @ drop ((Suc i + k) * 32) ?okm)"
    using len by (rule Suc.IH)
  also have "\<dots> = Inr (take (i * 32) okm
       @ concat (map (hkdfT P prk info) [Suc i..<Suc (i + Suc k)])
       @ drop ((i + Suc k) * 32) okm)"
    unfolding tk dr up by simp
  finally show ?case .
qed

lemma hkdfBlocks_length: "hmacLength P \<Longrightarrow> length (hkdfBlocks P prk info n) = 32 * n"
proof (induction n)
  case 0
  then show ?case by (simp add: hkdfBlocks_def)
next
  case (Suc n)
  have "hkdfBlocks P prk info (Suc n) = hkdfBlocks P prk info n @ hkdfT P prk info (Suc n)"
    by (simp add: hkdfBlocks_def)
  with Suc hkdfT_length [of P prk info n] show ?case by simp
qed


lemma sint_small: "0 \<le> x \<Longrightarrow> x < 2 ^ 31 \<Longrightarrow> sint (word_of_int x :: 32 word) = x"
  by (simp add: sint_sbintrunc' signed_take_bit_int_eq_self)

lemma ceil32:
  fixes l :: int
  assumes "0 \<le> l"
  shows "0 \<le> - ((- l) div 32)" and "l \<le> - ((- l) div 32) * 32"
    and "- ((- l) div 32) * 32 < l + 32"
proof -
  have m: "0 \<le> (- l) mod 32" "(- l) mod 32 < 32" by simp_all
  have d: "- l = 32 * ((- l) div 32) + (- l) mod 32" by simp
  from m d assms show "0 \<le> - ((- l) div 32)" by linarith
  from m d show "l \<le> - ((- l) div 32) * 32" by linarith
  from m d show "- ((- l) div 32) * 32 < l + 32" by linarith
qed


lemma HKDF_expand_blocks:
  assumes hm: "hmacLength P" and key: "prk \<noteq> []" and l: "0 \<le> l" "l \<le> 8160"
  shows "HKDF_expand P prk info l
     = Inr (take (nat l) (hkdfBlocks P prk info (nat (- ((- l) div 32)))))"
proof -
  define n where "n = - ((- l) div int HASH_LEN)"
  have n32: "- ((- l) div 32) = n" by (simp add: n_def HASH_LEN_def)
  from l ceil32 [of l] have n: "0 \<le> n" "l \<le> n * 32" "n * 32 < 2 ^ 31"
    unfolding n32 by simp_all
  have h: "n * int HASH_LEN = n * 32" by (simp add: HASH_LEN_def)
  have s: "sint (word_of_int (n * 32) :: 32 word) = n * 32"
    using n by (intro sint_small) simp_all
  have sk: "SecretKeySpec prk = Inr prk"
    using key by (simp add: SecretKeySpec_def)
  have "ByteArray (n * 32) = Inr (replicate (nat n * 32) 0)"
    using n by (simp add: ByteArray_def nat_mult_distrib)
  then have alloc: "ByteArray (sint (word_of_int (n * int HASH_LEN) :: 32 word))
      = Inr (replicate (nat n * 32) 0)"
    unfolding h s .
  have "expandLoop P prk info (nat n) (Suc 0) (hkdfT P prk info 0) (replicate (nat n * 32) 0)
      = Inr (take (0 * 32) (replicate (nat n * 32) 0)
             @ concat (map (hkdfT P prk info) [Suc 0..<Suc (0 + nat n)])
             @ drop ((0 + nat n) * 32) (replicate (nat n * 32) 0))"
    by (rule expandLoop_blocks [OF hm]) simp
  then have loop: "expandLoop P prk info (nat n) 1 [] (replicate (nat n * 32) 0)
      = Inr (hkdfBlocks P prk info (nat n))"
    by (simp add: hkdfBlocks_def)
  have "nat l \<le> length (hkdfBlocks P prk info (nat n))"
    using n l unfolding hkdfBlocks_length [OF hm] by linarith
  then have cp: "copyOf (hkdfBlocks P prk info (nat n)) l
      = Inr (take (nat l) (hkdfBlocks P prk info (nat n)))"
    using l by (simp add: copyOf_def)
  show ?thesis
    unfolding n32
    by (simp only: HKDF_expand_def sk Let_def n_def [symmetric] alloc loop cp sum.case)
qed


lemma stub_hmacLength: "hmacLength stubPlatform"
  by (simp add: hmacLength_def stubPlatform_def)

lemma stub_hmac:
  "hmacSHA256 stubPlatform k d = replicate 31 (last (0 # d)) @ [hd (k @ [0])]"
  by (simp add: stubPlatform_def)




lemma HKDF_deriveKey_32:
  assumes "hmacLength P" and "salt \<noteq> []"
  shows "HKDF_deriveKey P ikm salt info 32
     = Inr (hmacSHA256 P (hmacSHA256 P salt ikm) (info @ [1]))"
proof -
  let ?prk = "hmacSHA256 P salt ikm"
  from assms(1) have "length ?prk = 32" by (simp add: hmacLength_def)
  then have key: "?prk \<noteq> []" by auto
  have len: "length (hkdfT P ?prk info (Suc 0)) = 32"
    using assms(1) by (rule hkdfT_length)
  have "HKDF_expand P ?prk info 32 = Inr (hkdfT P ?prk info (Suc 0))"
    using HKDF_expand_blocks [OF assms(1) key, of 32 info] len
    by (simp add: hkdfBlocks_def)
  then show ?thesis
    using assms(2) by (simp add: HKDF_deriveKey_def HKDF_extract_def SecretKeySpec_def)
qed

lemma fill_length: "length (fill buf out) = length buf"
  by (simp add: fill_def)

lemma generateEncryptionKeyPair_32:
  "length seed = 32 \<Longrightarrow>
   generateEncryptionKeyPair L seed
     = Inr (fill (replicate 32 0) (cryptoScalarmultBase L seed), seed)"
  by (simp add: generateEncryptionKeyPair_def arraycopy_def Box_PUBLICKEYBYTES_def
      Box_SECRETKEYBYTES_def Let_def)

lemma domain_bytes:
  "toByteArrayUTF8 ''whisper'' \<noteq> []"
  by (simp add: toByteArrayUTF8_def)

text \<open>
  Claim C1. The chain from the phrase to the keys is a function of the phrase and of the
  library primitives, with no other input. On a phrase that \<^verbatim>\<open>validateMnemonic\<close> rejects,
  \<^verbatim>\<open>seedFromMnemonic\<close> and \<^verbatim>\<open>deriveAllKeys\<close> both throw \<^verbatim>\<open>InvalidMnemonicException\<close>. On a
  phrase that validates, with a MAC of 32 bytes, both return, any two results of
  \<^verbatim>\<open>seedFromMnemonic\<close> are the same seed and any two results of \<^verbatim>\<open>deriveAllKeys\<close> the same
  key set, and the values are these: the seed is PBKDF2 of the normalised phrase; the
  three sub-keys are the first HKDF blocks under the key HMAC(``whisper'', seed) for the
  three domain strings; the X25519 private key is the first sub-key and the public key
  what \<^verbatim>\<open>crypto_scalarmult_base\<close> writes for it; the Ed25519 pair is what
  \<^verbatim>\<open>crypto_sign_seed_keypair\<close> writes for the second; the contacts key is the third. The
  keys have 32, 32, 32, 64 and 32 bytes, the seed 64 when PBKDF2 delivers what it is
  asked for.
\<close>

theorem deriveAllKeys_deterministic:
  assumes hm: "hmacLength P"
  shows "(\<not> validateMnemonic P m \<longrightarrow>
        seedFromMnemonic P m = Inl InvalidMnemonicException
        \<and> deriveAllKeys P L m = Inl InvalidMnemonicException)
   \<and> (validateMnemonic P m \<longrightarrow>
       (\<exists>seed keys.
         seedFromMnemonic P m = Inr seed \<and> deriveAllKeys P L m = Inr keys
         \<and> (\<forall>seed'. seedFromMnemonic P m = Inr seed' \<longrightarrow> seed' = seed)
         \<and> (\<forall>keys'. deriveAllKeys P L m = Inr keys' \<longrightarrow> keys' = keys)
         \<and> seed = pbkdf2HmacSHA512 P (normalizeMnemonic P m)
                    (toByteArrayUTF8 ''mnemonic'') 2048 512
         \<and> encPrivateKey keys
             = hmacSHA256 P (hmacSHA256 P (toByteArrayUTF8 ''whisper'') seed)
                 (toByteArrayUTF8 ''whisper/enc'' @ [1])
         \<and> encPublicKey keys
             = fill (replicate 32 0) (cryptoScalarmultBase L (encPrivateKey keys))
         \<and> signPublicKey keys
             = fill (replicate 32 0) (fst (cryptoSignSeedKeypair L
                 (hmacSHA256 P (hmacSHA256 P (toByteArrayUTF8 ''whisper'') seed)
                    (toByteArrayUTF8 ''whisper/sign'' @ [1]))))
         \<and> signPrivateKey keys
             = fill (replicate 64 0) (snd (cryptoSignSeedKeypair L
                 (hmacSHA256 P (hmacSHA256 P (toByteArrayUTF8 ''whisper'') seed)
                    (toByteArrayUTF8 ''whisper/sign'' @ [1]))))
         \<and> contactsKey keys
             = hmacSHA256 P (hmacSHA256 P (toByteArrayUTF8 ''whisper'') seed)
                 (toByteArrayUTF8 ''whisper/contacts'' @ [1])
         \<and> length (encPublicKey keys) = 32 \<and> length (encPrivateKey keys) = 32
         \<and> length (signPublicKey keys) = 32 \<and> length (signPrivateKey keys) = 64
         \<and> length (contactsKey keys) = 32
         \<and> ((\<forall>pw s n b. length (pbkdf2HmacSHA512 P pw s n b) = b div 8)
              \<longrightarrow> length seed = 64)))"
proof -
  define seed where
    "seed = pbkdf2HmacSHA512 P (normalizeMnemonic P m) (toByteArrayUTF8 ''mnemonic'') 2048 512"
  have len: "length (hmacSHA256 P k d) = 32" for k d
    using hm by (simp add: hmacLength_def)
  have bad: "seedFromMnemonic P m = Inl InvalidMnemonicException
        \<and> deriveAllKeys P L m = Inl InvalidMnemonicException"
    if "\<not> validateMnemonic P m"
    using that by (simp add: seedFromMnemonic_def deriveAllKeys_def)
  have good: ?thesis if valid: "validateMnemonic P m"
  proof -
    have s: "seedFromMnemonic P m = Inr seed"
      using valid by (simp add: seed_def seedFromMnemonic_def Let_def BIP39_SALT_def
          BIP39_ITERATIONS_def BIP39_SEED_LENGTH_def)
    show ?thesis
      using s valid
      by (simp add: deriveAllKeys_def Let_def HKDF_deriveKey_32 [OF hm domain_bytes]
          HKDF_SALT_def ENCRYPTION_DOMAIN_def SIGNING_DOMAIN_def CONTACTS_DOMAIN_def
          generateEncryptionKeyPair_32 len generateSigningKeyPair_def fill_length
          Sign_PUBLICKEYBYTES_def Sign_SECRETKEYBYTES_def seed_def split: prod.splits)
  qed
  from bad good show ?thesis by blast
qed

theorem deriveAllKeys_deterministic_witness:
  "hmacLength stubPlatform
   \<and> validateMnemonic stubPlatform
       ''abandon abandon abandon abandon abandon abandon abandon abandon abandon abandon abandon about''
   \<and> (\<exists>keys. deriveAllKeys stubPlatform stubSodium
       ''abandon abandon abandon abandon abandon abandon abandon abandon abandon abandon abandon about''
        = Inr keys
      \<and> encPrivateKey keys = replicate 31 1 @ [32]
      \<and> encPublicKey keys = encPrivateKey keys
      \<and> length (contactsKey keys) = 32 \<and> length (signPrivateKey keys) = 64)
   \<and> \<not> validateMnemonic stubPlatform ''abandon about''
   \<and> deriveAllKeys stubPlatform stubSodium ''abandon about'' = Inl InvalidMnemonicException"
proof -
  let ?m = "''abandon abandon abandon abandon abandon abandon abandon abandon abandon abandon abandon about''"
  have a: "validateMnemonic stubPlatform ?m"
    by (simp add: validateMnemonic_def text_defs stubPlatform_def isValidWord_def
        BIP39WordList_words_def Let_def)
  have c: "\<not> validateMnemonic stubPlatform ''abandon about''"
    by (simp add: validateMnemonic_def text_defs stubPlatform_def Let_def)
  have n: "normalizeMnemonic stubPlatform ?m = ?m"
    by (simp add: text_defs stubPlatform_def)
  note r = deriveAllKeys_deterministic [OF stub_hmacLength, of ?m stubSodium]
  from r a obtain keys where k: "deriveAllKeys stubPlatform stubSodium ?m = Inr keys"
    "encPrivateKey keys
       = hmacSHA256 stubPlatform (hmacSHA256 stubPlatform (toByteArrayUTF8 ''whisper'')
           (pbkdf2HmacSHA512 stubPlatform (normalizeMnemonic stubPlatform ?m)
              (toByteArrayUTF8 ''mnemonic'') 2048 512))
           (toByteArrayUTF8 ''whisper/enc'' @ [1])"
    "encPublicKey keys = fill (replicate 32 0) (cryptoScalarmultBase stubSodium (encPrivateKey keys))"
    "length (contactsKey keys) = 32" "length (signPrivateKey keys) = 64"
    "length (encPrivateKey keys) = 32"
    by blast
  have pk: "encPublicKey keys = encPrivateKey keys"
    using k(3) k(6) by (simp add: stubSodium_def fill_def)
  have seed: "last (pbkdf2HmacSHA512 stubPlatform ?m (toByteArrayUTF8 ''mnemonic'') 2048 512) = 32"
    by (simp add: stubPlatform_def toByteArrayUTF8_def)
  have seed_ne: "pbkdf2HmacSHA512 stubPlatform ?m (toByteArrayUTF8 ''mnemonic'') 2048 512 \<noteq> []"
    by (simp add: stubPlatform_def toByteArrayUTF8_def)
  have sk: "encPrivateKey keys = replicate 31 1 @ [32]"
    unfolding k(2) n stub_hmac using seed seed_ne by (simp add: toByteArrayUTF8_def)
  from r c have bad: "deriveAllKeys stubPlatform stubSodium ''abandon about''
      = Inl InvalidMnemonicException"
    using deriveAllKeys_deterministic [OF stub_hmacLength, of "''abandon about''" stubSodium]
    by blast
  from a c k(1,4,5) pk sk bad stub_hmacLength show ?thesis by blast
qed

subsection \<open>Authenticated encryption\<close>

lemma ByteArray_neg: "n < 0 \<Longrightarrow> ByteArray n = Inl NegativeArraySizeException"
  by (simp add: ByteArray_def)

lemma ByteArray_nonneg: "0 \<le> n \<Longrightarrow> ByteArray n = Inr (replicate (nat n) 0)"
  by (simp add: ByteArray_def)

text \<open>
  Claim C9. On a ciphertext of fewer than 16 bytes \<^verbatim>\<open>NaClBox.open\<close> and
  \<^verbatim>\<open>NaClSecretBox.open\<close> fail with \<^verbatim>\<open>NegativeArraySizeException\<close> at the allocation of the
  plaintext buffer, whatever libsodium would answer: the primitive is not reached. On a
  ciphertext of 16 bytes or more the only exception is \<^verbatim>\<open>DecryptionException\<close>, thrown
  exactly when the primitive reports failure, and a returned plaintext has the length of
  the ciphertext minus 16.
\<close>

theorem open_needs_mac_bytes:
  "(length ciphertext < 16 \<longrightarrow>
      NaClBox_open L ciphertext nonce pk sk = Inl NegativeArraySizeException
      \<and> NaClSecretBox_open L ciphertext nonce key = Inl NegativeArraySizeException)
   \<and> (16 \<le> length ciphertext \<longrightarrow>
      (\<forall>e. NaClBox_open L ciphertext nonce pk sk = Inl e \<longrightarrow> e = DecryptionException)
      \<and> (\<forall>e. NaClSecretBox_open L ciphertext nonce key = Inl e \<longrightarrow> e = DecryptionException)
      \<and> (NaClBox_open L ciphertext nonce pk sk = Inl DecryptionException
           \<longleftrightarrow> \<not> fst (cryptoBoxOpenEasy L ciphertext nonce pk sk))
      \<and> (NaClSecretBox_open L ciphertext nonce key = Inl DecryptionException
           \<longleftrightarrow> \<not> fst (cryptoSecretBoxOpenEasy L ciphertext nonce key))
      \<and> (\<forall>message. NaClBox_open L ciphertext nonce pk sk = Inr message
           \<longrightarrow> length message = length ciphertext - 16)
      \<and> (\<forall>message. NaClSecretBox_open L ciphertext nonce key = Inr message
           \<longrightarrow> length message = length ciphertext - 16))"
  by (auto simp add: NaClBox_open_def NaClSecretBox_open_def ByteArray_def Box_MACBYTES_def
      SecretBox_MACBYTES_def fill_def split: prod.splits if_splits)

theorem open_needs_mac_bytes_witness:
  "length ([1, 2, 3] :: bytes) < 16
   \<and> NaClBox_open stubSodium [1, 2, 3] (replicate 24 0) (replicate 32 0) (replicate 32 0) = Inl NegativeArraySizeException
   \<and> NaClSecretBox_open stubSodium [1, 2, 3] (replicate 24 0) (replicate 32 0) = Inl NegativeArraySizeException
   \<and> 16 \<le> length (replicate 16 2 @ [7] :: bytes)
   \<and> \<not> fst (cryptoBoxOpenEasy stubSodium (replicate 16 2 @ [7]) (replicate 24 0) (replicate 32 0) (replicate 32 0))
   \<and> NaClBox_open stubSodium (replicate 16 2 @ [7]) (replicate 24 0) (replicate 32 0) (replicate 32 0) = Inl DecryptionException
   \<and> \<not> fst (cryptoSecretBoxOpenEasy stubSodium (replicate 16 2 @ [7]) (replicate 24 0) (replicate 32 0))
   \<and> NaClSecretBox_open stubSodium (replicate 16 2 @ [7]) (replicate 24 0) (replicate 32 0) = Inl DecryptionException"
proof -
  have a: "length ([1, 2, 3] :: bytes) < 16" by simp
  have b: "16 \<le> length (replicate 16 2 @ [7] :: bytes)" by simp
  have c: "\<not> fst (cryptoBoxOpenEasy stubSodium (replicate 16 2 @ [7]) (replicate 24 0) (replicate 32 0) (replicate 32 0))"
    "\<not> fst (cryptoSecretBoxOpenEasy stubSodium (replicate 16 2 @ [7]) (replicate 24 0) (replicate 32 0))"
    by (simp_all add: stubSodium_def eval_nat_numeral)
  from open_needs_mac_bytes [of "[1, 2, 3]" stubSodium "replicate 24 0" "replicate 32 0" "replicate 32 0" "replicate 32 0"] a
  have d: "NaClBox_open stubSodium [1, 2, 3] (replicate 24 0) (replicate 32 0) (replicate 32 0) = Inl NegativeArraySizeException"
    "NaClSecretBox_open stubSodium [1, 2, 3] (replicate 24 0) (replicate 32 0) = Inl NegativeArraySizeException"
    by blast+
  from open_needs_mac_bytes [of "replicate 16 2 @ [7]" stubSodium "replicate 24 0" "replicate 32 0" "replicate 32 0" "replicate 32 0"] b c
  have e: "NaClBox_open stubSodium (replicate 16 2 @ [7]) (replicate 24 0) (replicate 32 0) (replicate 32 0) = Inl DecryptionException"
    "NaClSecretBox_open stubSodium (replicate 16 2 @ [7]) (replicate 24 0) (replicate 32 0) = Inl DecryptionException"
    by blast+
  from a b c d e show ?thesis by blast
qed

lemma stub_boxCorrect: "boxCorrect stubSodium"
  by (simp add: boxCorrect_def stubSodium_def)

text \<open>
  Claim C5. Let libsodium's box be correct (\<open>boxCorrect\<close>), let \<open>(pkS, skS)\<close> and
  \<open>(pkR, skR)\<close> be X25519 key pairs and \<open>n\<close> a nonce of 24 bytes. Then for every message
  \<open>m\<close>, the empty one included, \<^verbatim>\<open>boxSeal\<close> returns a ciphertext of \<open>length m + 16\<close> bytes,
  and \<^verbatim>\<open>boxOpen\<close> on it, with the sender's public and the recipient's private key, returns
  \<open>m\<close>. Whatever the keys, a ciphertext that \<^verbatim>\<open>boxSeal\<close> returns has 16 bytes more than
  the message; and when the primitive reports that the tag does not match, \<^verbatim>\<open>boxOpen\<close>
  returns no plaintext: it throws, and what it throws on a ciphertext of at least 16 bytes
  is \<^verbatim>\<open>DecryptionException\<close>.
\<close>

theorem box_round_trip:
  assumes "boxCorrect L" "x25519KeyPair L pkS skS" "x25519KeyPair L pkR skR" "length n = 24"
  shows "(\<exists>c. boxSeal L m n pkR skS = Inr c \<and> length c = length m + 16
            \<and> boxOpen L c n pkS skR = Inr m)
    \<and> (\<forall>m' n' pk sk c'. boxSeal L m' n' pk sk = Inr c' \<longrightarrow> length c' = length m' + 16)
    \<and> (\<forall>c' n' pk sk. \<not> fst (cryptoBoxOpenEasy L c' n' pk sk) \<longrightarrow>
          (\<forall>p. boxOpen L c' n' pk sk \<noteq> Inr p)
          \<and> (16 \<le> length c' \<longrightarrow> boxOpen L c' n' pk sk = Inl DecryptionException))"
proof -
  from assms obtain c where c: "cryptoBoxEasy L m n pkR skS = (True, c)"
    "length c = length m + 16" "cryptoBoxOpenEasy L c n pkS skR = (True, m)"
    unfolding boxCorrect_def by blast
  have seal: "boxSeal L m n pkR skS = Inr c"
    using c(1,2) by (simp add: boxSeal_def NaClBox_seal_def ByteArray_def Box_MACBYTES_def fill_def)
  have opn: "boxOpen L c n pkS skR = Inr m"
    using c(2,3) by (simp add: boxOpen_def NaClBox_open_def ByteArray_def Box_MACBYTES_def fill_def)
  have lens: "length c' = length m' + 16" if "boxSeal L m' n' pk sk = Inr c'" for m' n' pk sk c'
    using that
    by (auto simp add: boxSeal_def NaClBox_seal_def ByteArray_def Box_MACBYTES_def fill_def
        split: prod.splits if_splits)
  have rej: "(\<forall>p. boxOpen L c' n' pk sk \<noteq> Inr p)
      \<and> (16 \<le> length c' \<longrightarrow> boxOpen L c' n' pk sk = Inl DecryptionException)"
    if "\<not> fst (cryptoBoxOpenEasy L c' n' pk sk)" for c' n' pk sk
    using that
    by (auto simp add: boxOpen_def NaClBox_open_def ByteArray_def Box_MACBYTES_def
        split: prod.splits if_splits)
  from seal opn c(2) lens rej show ?thesis by blast
qed

theorem box_round_trip_witness:
  "boxCorrect stubSodium
   \<and> x25519KeyPair stubSodium (replicate 32 5) (replicate 32 5)
   \<and> x25519KeyPair stubSodium (replicate 32 6) (replicate 32 6)
   \<and> length (replicate 24 9 :: bytes) = 24
   \<and> boxSeal stubSodium [] (replicate 24 9) (replicate 32 6) (replicate 32 5)
       = Inr (replicate 16 1)
   \<and> boxOpen stubSodium (replicate 16 1) (replicate 24 9) (replicate 32 5) (replicate 32 6)
       = Inr []
   \<and> boxSeal stubSodium [10, 20, 30] (replicate 24 9) (replicate 32 6) (replicate 32 5)
       = Inr (replicate 16 1 @ [10, 20, 30])
   \<and> boxOpen stubSodium (replicate 16 1 @ [10, 20, 30]) (replicate 24 9) (replicate 32 5)
         (replicate 32 6)
       = Inr [10, 20, 30]
   \<and> \<not> fst (cryptoBoxOpenEasy stubSodium (replicate 16 2 @ [10, 20, 30]) (replicate 24 9)
         (replicate 32 5) (replicate 32 6))
   \<and> boxOpen stubSodium (replicate 16 2 @ [10, 20, 30]) (replicate 24 9) (replicate 32 5)
         (replicate 32 6)
       = Inl DecryptionException"
proof -
  have kp: "x25519KeyPair stubSodium (replicate 32 5) (replicate 32 5)"
    "x25519KeyPair stubSodium (replicate 32 6) (replicate 32 6)"
    by (simp_all add: x25519KeyPair_def stubSodium_def fill_def)
  have n: "length (replicate 24 9 :: bytes) = 24" by simp
  have e0: "cryptoBoxEasy stubSodium [] (replicate 24 9) (replicate 32 6) (replicate 32 5)
      = (True, replicate 16 1)"
    and e3: "cryptoBoxEasy stubSodium [10, 20, 30] (replicate 24 9) (replicate 32 6) (replicate 32 5)
      = (True, replicate 16 1 @ [10, 20, 30])"
    by (simp_all add: stubSodium_def)
  have s0: "boxSeal stubSodium [] (replicate 24 9) (replicate 32 6) (replicate 32 5)
      = Inr (replicate 16 1)"
    and s3: "boxSeal stubSodium [10, 20, 30] (replicate 24 9) (replicate 32 6) (replicate 32 5)
      = Inr (replicate 16 1 @ [10, 20, 30])"
    using e0 e3
    by (simp_all add: boxSeal_def NaClBox_seal_def ByteArray_def Box_MACBYTES_def fill_def)
  note r0 = box_round_trip [OF stub_boxCorrect kp n, of "[]"]
  note r3 = box_round_trip [OF stub_boxCorrect kp n, of "[10, 20, 30]"]
  from r0 s0 have o0: "boxOpen stubSodium (replicate 16 1) (replicate 24 9) (replicate 32 5)
      (replicate 32 6) = Inr []"
    by auto
  from r3 s3 have o3: "boxOpen stubSodium (replicate 16 1 @ [10, 20, 30]) (replicate 24 9)
      (replicate 32 5) (replicate 32 6) = Inr [10, 20, 30]"
    by auto
  have bad: "\<not> fst (cryptoBoxOpenEasy stubSodium (replicate 16 2 @ [10, 20, 30]) (replicate 24 9)
         (replicate 32 5) (replicate 32 6))"
    by (simp add: stubSodium_def eval_nat_numeral)
  have "16 \<le> length (replicate 16 2 @ [10, 20, 30] :: bytes)" by simp
  with r3 bad have o: "boxOpen stubSodium (replicate 16 2 @ [10, 20, 30]) (replicate 24 9)
      (replicate 32 5) (replicate 32 6) = Inl DecryptionException"
    by blast
  from stub_boxCorrect kp n s0 o0 s3 o3 bad o show ?thesis by blast
qed

subsection \<open>Canonical signing\<close>

declare digits.simps [simp del]

lemma digits_nonempty: "digits n \<noteq> []"
  by (subst digits.simps) simp

lemma digits_chars:
  "c \<in> set (digits n) \<Longrightarrow> 48 \<le> (of_char c :: nat) \<and> (of_char c :: nat) \<le> 57"
proof (induction n rule: digits.induct)
  case (1 n)
  show ?case
  proof (cases "n < 10")
    case True
    then have "digits n = [char_of (48 + n)]" by (subst digits.simps) simp
    with "1.prems" have "c = char_of (48 + n)" by simp
    with True show ?thesis by simp
  next
    case False
    then have "digits n = digits (n div 10) @ [char_of (48 + n mod 10)]"
      by (subst digits.simps) simp
    with "1.prems" have "c \<in> set (digits (n div 10)) \<or> c = char_of (48 + n mod 10)" by auto
    then show ?thesis
    proof
      assume "c \<in> set (digits (n div 10))"
      with False "1.IH" show ?thesis by blast
    next
      assume c: "c = char_of (48 + n mod 10)"
      have "n mod 10 < 10" by simp
      then have "(48 + n mod 10) mod 256 = 48 + n mod 10" by simp
      with c show ?thesis by simp
    qed
  qed
qed

lemma digits_inj: "digits n = digits m \<Longrightarrow> n = m"
proof (induction n arbitrary: m rule: digits.induct)
  case (1 n)
  have single: "k < 10 \<Longrightarrow> digits k = [char_of (48 + k)]" for k
    by (subst digits.simps) simp
  have several: "\<not> k < 10 \<Longrightarrow> digits k = digits (k div 10) @ [char_of (48 + k mod 10)]" for k
    by (subst digits.simps) simp
  have mixed: False if "a < 10" "\<not> b < 10" "digits a = digits b" for a b
  proof -
    from that have "[] @ [char_of (48 + a)] = digits (b div 10) @ [char_of (48 + b mod 10)]"
      by (simp add: single several)
    then have "[] = digits (b div 10)" by (simp only: append1_eq_conv)
    with digits_nonempty [of "b div 10"] show False by simp
  qed
  show ?case
  proof (cases "n < 10")
    case True
    with mixed [of n m] "1.prems" have m: "m < 10" by blast
    with True "1.prems" have "char_of (48 + n) = char_of (48 + m)"
      by (simp add: single)
    then have "(48 + n) mod 256 = (48 + m) mod 256" by simp
    with True m show ?thesis by simp
  next
    case False
    with mixed [of m n] "1.prems" have m: "\<not> m < 10" by auto
    from False m "1.prems"
    have "digits (n div 10) @ [char_of (48 + n mod 10)]
        = digits (m div 10) @ [char_of (48 + m mod 10)]"
      by (simp add: several)
    then have d: "digits (n div 10) = digits (m div 10)"
      and c: "char_of (48 + n mod 10) = char_of (48 + m mod 10)"
      by simp_all
    from False d have q: "n div 10 = m div 10" by (rule "1.IH")
    from c have "(48 + n mod 10) mod 256 = (48 + m mod 10) mod 256" by simp
    moreover have "n mod 10 < 10" "m mod 10 < 10" by simp_all
    ultimately have r: "n mod 10 = m mod 10" by simp
    have "n = n div 10 * 10 + n mod 10" "m = m div 10 * 10 + m mod 10" by simp_all
    with q r show ?thesis by simp
  qed
qed

lemma toStringLong_chars:
  "c \<in> set (toStringLong x) \<Longrightarrow> c = CHR ''-'' \<or> (48 \<le> (of_char c :: nat) \<and> (of_char c :: nat) \<le> 57)"
  by (auto simp add: toStringLong_def dest: digits_chars split: if_splits)

lemma toStringLong_no_newline: "CHR 0x0A \<notin> set (toStringLong x)"
proof
  assume "CHR 0x0A \<in> set (toStringLong x)"
  from toStringLong_chars [OF this] show False by simp
qed

lemma toStringLong_inj: "toStringLong x = toStringLong y \<Longrightarrow> x = y"
proof -
  assume eq: "toStringLong x = toStringLong y"
  have nodash: "CHR ''-'' # ds \<noteq> digits k" for ds k
  proof
    assume e: "CHR ''-'' # ds = digits k"
    then have "CHR ''-'' \<in> set (digits k)" by (metis list.set_intros(1))
    from digits_chars [OF this] show False by simp
  qed
  have "sint x = sint y"
  proof (cases "sint x < 0")
    case True
    show ?thesis
    proof (cases "sint y < 0")
      case neg: True
      with True eq have "digits (nat (- sint x)) = digits (nat (- sint y))"
        by (simp add: toStringLong_def)
      then have "nat (- sint x) = nat (- sint y)" by (rule digits_inj)
      with True neg show ?thesis by simp
    next
      case False
      with True eq nodash show ?thesis by (simp add: toStringLong_def)
    qed
  next
    case False
    show ?thesis
    proof (cases "sint y < 0")
      case True
      with False eq nodash [of "digits (nat (- sint y))" "nat (sint x)"] show ?thesis
        by (simp add: toStringLong_def)
    next
      case nonneg: False
      with False eq have "digits (nat (sint x)) = digits (nat (sint y))"
        by (simp add: toStringLong_def)
      then have "nat (sint x) = nat (sint y)" by (rule digits_inj)
      with False nonneg show ?thesis by simp
    qed
  qed
  then show "x = y" by (rule signed_word_eqI)
qed

lemma newline_split:
  "CHR 0x0A \<notin> set a \<Longrightarrow> CHR 0x0A \<notin> set b \<Longrightarrow>
   (a @ CHR 0x0A # r = b @ CHR 0x0A # s) = (a = b \<and> r = s)"
proof (induction a arbitrary: b)
  case Nil
  then show ?case by (cases b) auto
next
  case (Cons x a)
  then show ?case by (cases b) auto
qed

lemma canonical_inj:
  assumes "CHR 0x0A \<notin> set messageType1" "CHR 0x0A \<notin> set messageType2"
    "CHR 0x0A \<notin> set messageId1" "CHR 0x0A \<notin> set messageId2"
    "CHR 0x0A \<notin> set from1" "CHR 0x0A \<notin> set from2"
    "CHR 0x0A \<notin> set to1" "CHR 0x0A \<notin> set to2"
    "CHR 0x0A \<notin> set (encodeBase64 P nonce1)" "CHR 0x0A \<notin> set (encodeBase64 P nonce2)"
    and "canonical P messageType1 messageId1 from1 to1 timestamp1 nonce1 ciphertext1
       = canonical P messageType2 messageId2 from2 to2 timestamp2 nonce2 ciphertext2"
  shows "messageType1 = messageType2 \<and> messageId1 = messageId2 \<and> from1 = from2 \<and> to1 = to2
    \<and> timestamp1 = timestamp2
    \<and> encodeBase64 P nonce1 = encodeBase64 P nonce2
    \<and> encodeBase64 P ciphertext1 = encodeBase64 P ciphertext2"
proof -
  note nl = toStringLong_no_newline
  from assms(11)
  have "messageType1 @ CHR 0x0A # messageId1 @ CHR 0x0A # from1 @ CHR 0x0A # to1 @ CHR 0x0A #
      toStringLong timestamp1 @ CHR 0x0A # encodeBase64 P nonce1 @ CHR 0x0A #
      encodeBase64 P ciphertext1 @ [CHR 0x0A]
    = messageType2 @ CHR 0x0A # messageId2 @ CHR 0x0A # from2 @ CHR 0x0A # to2 @ CHR 0x0A #
      toStringLong timestamp2 @ CHR 0x0A # encodeBase64 P nonce2 @ CHR 0x0A #
      encodeBase64 P ciphertext2 @ [CHR 0x0A]"
    by (simp add: canonical_def)
  then have "messageType1 = messageType2 \<and> messageId1 = messageId2 \<and> from1 = from2 \<and> to1 = to2
    \<and> toStringLong timestamp1 = toStringLong timestamp2
    \<and> encodeBase64 P nonce1 = encodeBase64 P nonce2
    \<and> encodeBase64 P ciphertext1 = encodeBase64 P ciphertext2"
    by (simp add: newline_split assms(1-10) nl)
  then show ?thesis by (auto dest: toStringLong_inj)
qed

lemma verifyMessage_same_canonical:
  "canonical P messageType1 messageId1 from1 to1 timestamp1 nonce1 ciphertext1
     = canonical P messageType2 messageId2 from2 to2 timestamp2 nonce2 ciphertext2 \<Longrightarrow>
   verifyMessage P L messageType2 messageId2 from2 to2 timestamp2 nonce2 ciphertext2
       signature publicKey
   = verifyMessage P L messageType1 messageId1 from1 to1 timestamp1 nonce1 ciphertext1
       signature publicKey"
  by (simp add: verifyMessage_def)

text \<open>
  Claim C6 as stated fails: the canonical string does not escape the line feed that ends
  each field. The message id made of ``i'', a line feed and ``a'' with the sender ``b'',
  and the message id ``i'' with the sender made of ``a'', a line feed and ``b'', give the
  same canonical string, so the signature made over the first tuple verifies against the
  second, which differs from it in two fields.
\<close>

theorem verifyMessage_newline_counterexample:
  "(''i'' @ [CHR 0x0A] @ ''a'', ''b'') \<noteq> (''i'', ''a'' @ [CHR 0x0A] @ ''b'')
   \<and> canonical stubPlatform ''t'' (''i'' @ [CHR 0x0A] @ ''a'') ''b'' ''c'' 5 [1] [2]
     = canonical stubPlatform ''t'' ''i'' (''a'' @ [CHR 0x0A] @ ''b'') ''c'' 5 [1] [2]
   \<and> verifyMessage stubPlatform stubSodium ''t'' ''i'' (''a'' @ [CHR 0x0A] @ ''b'') ''c'' 5 [1] [2]
       (signMessage stubPlatform stubSodium ''t'' (''i'' @ [CHR 0x0A] @ ''a'') ''b'' ''c'' 5 [1] [2]
          (replicate 64 0))
       (replicate 32 0)"
proof -
  have c: "canonical stubPlatform ''t'' (''i'' @ [CHR 0x0A] @ ''a'') ''b'' ''c'' 5 [1] [2]
     = canonical stubPlatform ''t'' ''i'' (''a'' @ [CHR 0x0A] @ ''b'') ''c'' 5 [1] [2]"
    by (simp add: canonical_def)
  have l: "length (sha256 stubPlatform m) = 32" for m
    by (auto simp add: stubPlatform_def min_def)
  have v: "verifyMessage stubPlatform stubSodium mt mi fr to' ts n ct
       (signMessage stubPlatform stubSodium mt mi fr to' ts n ct (replicate 64 0))
       (replicate 32 0)" for mt mi fr to' ts n ct
    using l by (simp add: verifyMessage_def signMessage_def Signatures_verify_def
        Signatures_sign_def Sign_BYTES_def fill_def stubSodium_def Let_def)
  from v [of "''t''" "''i'' @ [CHR 0x0A] @ ''a''" "''b''" "''c''" 5 "[1]" "[2]"]
    verifyMessage_same_canonical [OF c]
  have "verifyMessage stubPlatform stubSodium ''t'' ''i'' (''a'' @ [CHR 0x0A] @ ''b'') ''c'' 5 [1] [2]
       (signMessage stubPlatform stubSodium ''t'' (''i'' @ [CHR 0x0A] @ ''a'') ''b'' ''c'' 5 [1] [2]
          (replicate 64 0))
       (replicate 32 0)"
    by simp
  with c show ?thesis by simp
qed

text \<open>
  Claim C6 as amended. Take two field tuples whose four string fields (message type,
  message id, sender, recipient or group id) contain no line feed, and let the Base64
  encoding be free of line feeds and distinguish the two nonces and the two ciphertexts,
  as the encoding without wrapping does. If the tuples differ in at least one field, their
  canonical strings differ; and then a signature made by \<^verbatim>\<open>signMessage\<close> over the first
  tuple does not verify against the second, provided SHA-256 does not collide on the two
  strings and the signature primitive accepts the signature made over the first hash for
  no other hash.
\<close>

theorem verifyMessage_binds_fields:
  assumes "CHR 0x0A \<notin> set messageType1" "CHR 0x0A \<notin> set messageType2"
    "CHR 0x0A \<notin> set messageId1" "CHR 0x0A \<notin> set messageId2"
    "CHR 0x0A \<notin> set from1" "CHR 0x0A \<notin> set from2"
    "CHR 0x0A \<notin> set to1" "CHR 0x0A \<notin> set to2"
    "CHR 0x0A \<notin> set (encodeBase64 P nonce1)" "CHR 0x0A \<notin> set (encodeBase64 P nonce2)"
    and b64: "encodeBase64 P nonce1 = encodeBase64 P nonce2 \<longrightarrow> nonce1 = nonce2"
      "encodeBase64 P ciphertext1 = encodeBase64 P ciphertext2 \<longrightarrow> ciphertext1 = ciphertext2"
    and differ: "(messageType1, messageId1, from1, to1, timestamp1, nonce1, ciphertext1)
       \<noteq> (messageType2, messageId2, from2, to2, timestamp2, nonce2, ciphertext2)"
    and hash: "sha256 P (toByteArrayUTF8
           (canonical P messageType1 messageId1 from1 to1 timestamp1 nonce1 ciphertext1))
        = sha256 P (toByteArrayUTF8
           (canonical P messageType2 messageId2 from2 to2 timestamp2 nonce2 ciphertext2))
      \<longrightarrow> canonical P messageType1 messageId1 from1 to1 timestamp1 nonce1 ciphertext1
        = canonical P messageType2 messageId2 from2 to2 timestamp2 nonce2 ciphertext2"
    and sig: "Signatures_verify L
          (sha256 P (toByteArrayUTF8
             (canonical P messageType2 messageId2 from2 to2 timestamp2 nonce2 ciphertext2)))
          (Signatures_sign L
             (sha256 P (toByteArrayUTF8
                (canonical P messageType1 messageId1 from1 to1 timestamp1 nonce1 ciphertext1)))
             privateKey)
          publicKey
      \<longrightarrow> sha256 P (toByteArrayUTF8
             (canonical P messageType2 messageId2 from2 to2 timestamp2 nonce2 ciphertext2))
        = sha256 P (toByteArrayUTF8
             (canonical P messageType1 messageId1 from1 to1 timestamp1 nonce1 ciphertext1))"
  shows "canonical P messageType1 messageId1 from1 to1 timestamp1 nonce1 ciphertext1
      \<noteq> canonical P messageType2 messageId2 from2 to2 timestamp2 nonce2 ciphertext2
    \<and> \<not> verifyMessage P L messageType2 messageId2 from2 to2 timestamp2 nonce2 ciphertext2
          (signMessage P L messageType1 messageId1 from1 to1 timestamp1 nonce1 ciphertext1
             privateKey)
          publicKey"
proof -
  let ?c1 = "canonical P messageType1 messageId1 from1 to1 timestamp1 nonce1 ciphertext1"
  let ?c2 = "canonical P messageType2 messageId2 from2 to2 timestamp2 nonce2 ciphertext2"
  have ne: "?c1 \<noteq> ?c2"
  proof
    assume "?c1 = ?c2"
    from canonical_inj [OF assms(1-10) this] b64 differ show False by simp
  qed
  have "\<not> verifyMessage P L messageType2 messageId2 from2 to2 timestamp2 nonce2 ciphertext2
          (signMessage P L messageType1 messageId1 from1 to1 timestamp1 nonce1 ciphertext1
             privateKey)
          publicKey"
  proof
    assume "verifyMessage P L messageType2 messageId2 from2 to2 timestamp2 nonce2 ciphertext2
          (signMessage P L messageType1 messageId1 from1 to1 timestamp1 nonce1 ciphertext1
             privateKey)
          publicKey"
    then have "Signatures_verify L (sha256 P (toByteArrayUTF8 ?c2))
        (Signatures_sign L (sha256 P (toByteArrayUTF8 ?c1)) privateKey) publicKey"
      by (simp add: verifyMessage_def signMessage_def Let_def)
    with sig have "sha256 P (toByteArrayUTF8 ?c2) = sha256 P (toByteArrayUTF8 ?c1)" by blast
    with hash have "?c1 = ?c2" by simp
    with ne show False by contradiction
  qed
  with ne show ?thesis by blast
qed

lemma stub_timestamps:
  "toStringLong 1700000000000 = ''1700000000000''"
  "toStringLong 1700000000001 = ''1700000000001''"
  by (simp_all add: toStringLong_def digits.simps char_of_eq_char)

lemma stub_canonical:
  "canonical stubPlatform ''t'' ''i'' ''a'' ''b'' 1700000000000 [1, 2] [3]
     = ''v1'' @ [CHR 0x0A] @ ''t'' @ [CHR 0x0A] @ ''i'' @ [CHR 0x0A] @ ''a'' @ [CHR 0x0A]
       @ ''b'' @ [CHR 0x0A] @ ''1700000000000'' @ [CHR 0x0A] @ ''ABAC'' @ [CHR 0x0A]
       @ ''AD'' @ [CHR 0x0A]"
  "canonical stubPlatform ''t'' ''i'' ''a'' ''b'' 1700000000001 [1, 2] [3]
     = ''v1'' @ [CHR 0x0A] @ ''t'' @ [CHR 0x0A] @ ''i'' @ [CHR 0x0A] @ ''a'' @ [CHR 0x0A]
       @ ''b'' @ [CHR 0x0A] @ ''1700000000001'' @ [CHR 0x0A] @ ''ABAC'' @ [CHR 0x0A]
       @ ''AD'' @ [CHR 0x0A]"
  by (simp_all add: canonical_def stub_timestamps stubPlatform_def char_of_eq_char)

theorem verifyMessage_binds_fields_witness:
  "CHR 0x0A \<notin> set ''t'' \<and> CHR 0x0A \<notin> set ''i'' \<and> CHR 0x0A \<notin> set ''a'' \<and> CHR 0x0A \<notin> set ''b''
   \<and> CHR 0x0A \<notin> set (encodeBase64 stubPlatform [1, 2])
   \<and> (''t'', ''i'', ''a'', ''b'', 1700000000000 :: 64 word, [1, 2] :: bytes, [3] :: bytes)
       \<noteq> (''t'', ''i'', ''a'', ''b'', 1700000000001, [1, 2], [3])
   \<and> sha256 stubPlatform (toByteArrayUTF8 (canonical stubPlatform ''t'' ''i'' ''a'' ''b'' 1700000000000 [1, 2] [3]))
       \<noteq> sha256 stubPlatform (toByteArrayUTF8 (canonical stubPlatform ''t'' ''i'' ''a'' ''b'' 1700000000001 [1, 2] [3]))
   \<and> verifyMessage stubPlatform stubSodium ''t'' ''i'' ''a'' ''b'' 1700000000000 [1, 2] [3]
        (signMessage stubPlatform stubSodium ''t'' ''i'' ''a'' ''b'' 1700000000000 [1, 2] [3] (replicate 64 0)) (replicate 32 0)
   \<and> canonical stubPlatform ''t'' ''i'' ''a'' ''b'' 1700000000000 [1, 2] [3] \<noteq> canonical stubPlatform ''t'' ''i'' ''a'' ''b'' 1700000000001 [1, 2] [3]
   \<and> \<not> verifyMessage stubPlatform stubSodium ''t'' ''i'' ''a'' ''b'' 1700000000001 [1, 2] [3]
        (signMessage stubPlatform stubSodium ''t'' ''i'' ''a'' ''b'' 1700000000000 [1, 2] [3] (replicate 64 0)) (replicate 32 0)"
proof -
  let ?h1 = "sha256 stubPlatform (toByteArrayUTF8 (canonical stubPlatform ''t'' ''i'' ''a'' ''b'' 1700000000000 [1, 2] [3]))"
  let ?h2 = "sha256 stubPlatform (toByteArrayUTF8 (canonical stubPlatform ''t'' ''i'' ''a'' ''b'' 1700000000001 [1, 2] [3]))"
  have nl: "CHR 0x0A \<notin> set ''t''" "CHR 0x0A \<notin> set ''i''" "CHR 0x0A \<notin> set ''a''"
    "CHR 0x0A \<notin> set ''b''"
    by simp_all
  have b: "CHR 0x0A \<notin> set (encodeBase64 stubPlatform [1, 2])"
    by (simp add: stubPlatform_def char_eq_char_of)
  have i1: "encodeBase64 stubPlatform [1, 2] = encodeBase64 stubPlatform [1, 2]
      \<longrightarrow> ([1, 2] :: bytes) = [1, 2]"
    and i2: "encodeBase64 stubPlatform [3] = encodeBase64 stubPlatform [3]
      \<longrightarrow> ([3] :: bytes) = [3]"
    by simp_all
  have d: "(''t'', ''i'', ''a'', ''b'', 1700000000000 :: 64 word, [1, 2] :: bytes, [3] :: bytes)
       \<noteq> (''t'', ''i'', ''a'', ''b'', 1700000000001, [1, 2], [3])"
    by simp
  have h1: "?h1 = toByteArrayUTF8 (''v1'' @ [CHR 0x0A] @ ''t'' @ [CHR 0x0A] @ ''i'' @ [CHR 0x0A]
       @ ''a'' @ [CHR 0x0A] @ ''b'' @ [CHR 0x0A] @ ''1700000000000'' @ [CHR 0x0A] @ ''ABAC''
       @ [CHR 0x0A] @ ''AD'')"
    unfolding stub_canonical by (simp add: stubPlatform_def toByteArrayUTF8_def)
  have h2: "?h2 = toByteArrayUTF8 (''v1'' @ [CHR 0x0A] @ ''t'' @ [CHR 0x0A] @ ''i'' @ [CHR 0x0A]
       @ ''a'' @ [CHR 0x0A] @ ''b'' @ [CHR 0x0A] @ ''1700000000001'' @ [CHR 0x0A] @ ''ABAC''
       @ [CHR 0x0A] @ ''AD'')"
    unfolding stub_canonical by (simp add: stubPlatform_def toByteArrayUTF8_def)
  have hne: "?h1 \<noteq> ?h2"
    unfolding h1 h2 by (simp add: toByteArrayUTF8_def)
  then have hash: "?h1 = ?h2 \<longrightarrow>
      canonical stubPlatform ''t'' ''i'' ''a'' ''b'' 1700000000000 [1, 2] [3] = canonical stubPlatform ''t'' ''i'' ''a'' ''b'' 1700000000001 [1, 2] [3]"
    by simp
  have l: "length (sha256 stubPlatform m) = 32" for m
    by (auto simp add: stubPlatform_def min_def)
  have sg: "Signatures_sign stubSodium (sha256 stubPlatform m) sk
      = sha256 stubPlatform m @ sha256 stubPlatform m" for m sk
    using l [of m] by (simp add: Signatures_sign_def Sign_BYTES_def fill_def stubSodium_def)
  have vf: "Signatures_verify stubSodium h (g @ g) pk \<longleftrightarrow> g @ g = h @ h" for h g pk
    by (simp add: Signatures_verify_def stubSodium_def)
  have sig: "Signatures_verify stubSodium ?h2 (Signatures_sign stubSodium ?h1 (replicate 64 0))
        (replicate 32 0) \<longrightarrow> ?h2 = ?h1"
    unfolding sg vf using l [of "toByteArrayUTF8 (canonical stubPlatform ''t'' ''i'' ''a'' ''b'' 1700000000000 [1, 2] [3])"]
      l [of "toByteArrayUTF8 (canonical stubPlatform ''t'' ''i'' ''a'' ''b'' 1700000000001 [1, 2] [3])"]
    by (simp add: append_eq_append_conv)
  have genuine: "verifyMessage stubPlatform stubSodium ''t'' ''i'' ''a'' ''b'' 1700000000000 [1, 2] [3]
        (signMessage stubPlatform stubSodium ''t'' ''i'' ''a'' ''b'' 1700000000000 [1, 2] [3] (replicate 64 0)) (replicate 32 0)"
    unfolding verifyMessage_def signMessage_def Let_def sg vf by simp
  note r = verifyMessage_binds_fields [of "''t''" "''t''" "''i''" "''i''" "''a''" "''a''"
      "''b''" "''b''" stubPlatform "[1, 2]" "[1, 2]" "[3]" "[3]" 1700000000000 1700000000001
      stubSodium "replicate 64 0" "replicate 32 0",
      OF nl(1) nl(1) nl(2) nl(2) nl(3) nl(3) nl(4) nl(4) b b i1 i2 d hash sig]
  from nl b d hne genuine r show ?thesis by blast
qed

end
